theory Spec2Isabelle
  imports Main "HOL-Library.Word"
begin

unbundle bit_operations_syntax

text \<open>
  A model of the coroutine runtime: the transitions of a coroutine on \<open>yield\<close>, the
  event registration of the I/O multiplexer with its count of pending events, one pass
  of the multiplexer's idle coroutine, and the hooks \<open>do_io\<close> and \<open>fcntl\<close>. Each
  function of the sources is a function on an explicit state; what the kernel, the
  clock and the other coroutines contribute is a parameter. Locks are not modelled: a
  function runs from its entry to its return without interference.
\<close>

section \<open>Abnormal termination\<close>

text \<open>
  The sources guard their preconditions with \<open>assert\<close> from \<open>assert.h\<close>; the model takes
  the assertions as compiled in, so a failed assertion ends the process. Reading a vector
  outside its bounds and calling through a null pointer are undefined in C++; the model
  makes them outcomes of their own, so that no theorem is proved from an unspecified value.
\<close>

datatype abort = Assertion_failed | Out_of_bounds | Null_dereference

section \<open>Coroutines (fiber.cpp)\<close>

text \<open>
  The source is the part of src/sylar/timer.h that is headed \<open>@file fiber.cpp\<close>.
  \<open>Fiber::State\<close> is declared in fiber.h, which is not among the sources; its three
  states are the ones the code names.
\<close>

datatype State = READY | RUNNING | TERM_state  \<comment> \<open>\<open>TERM\<close> in the source; the bare name is taken by Pure\<close>

type_synonym fiber_ptr = nat
type_synonym callback = nat

text \<open>
  The members of \<open>Fiber\<close> that \<open>yield\<close> and \<open>MainFunc\<close> read or write. A callback
  (\<open>std::function<void()>\<close>) is named by a number; \<open>None\<close> is the empty function.
  The stack and the machine context are not part of the model.
\<close>

record Fiber =
  m_id :: "64 word"
  m_state :: State
  m_cb :: "callback option"
  m_runInScheduler :: bool

text \<open>
  The thread-local pointers of fiber.cpp: \<open>t_fiber\<close>, the coroutine running on this
  thread, and \<open>t_thread_fiber\<close>, the thread's main coroutine. \<open>None\<close> is \<open>nullptr\<close>.
\<close>

record fiber_tls =
  t_fiber :: "fiber_ptr option"
  t_thread_fiber :: "fiber_ptr option"

text \<open>The context that \<open>swapcontext\<close> switches to at the end of \<open>yield\<close>.\<close>

datatype partner = Scheduler_main_fiber | Thread_main_fiber

definition SetThis :: "fiber_ptr option \<Rightarrow> fiber_tls \<Rightarrow> fiber_tls" where
  "SetThis f tls = tls\<lparr>t_fiber := f\<rparr>"

text \<open>
  \<open>Fiber::yield\<close>: the assertion on the state, \<open>SetThis(t_thread_fiber.get())\<close>, the
  transition to \<open>READY\<close> unless the state is \<open>TERM\<close>, and the choice of the context
  to switch to. The result is the thread-local state and the coroutine as they are when
  control leaves the coroutine.
\<close>

definition yield :: "fiber_tls \<Rightarrow> Fiber \<Rightarrow> abort + (fiber_tls \<times> Fiber \<times> partner)" where
  "yield tls self =
     (if \<not> (m_state self = RUNNING \<or> m_state self = TERM_state) then Inl Assertion_failed
      else
        let tls' = SetThis (t_thread_fiber tls) tls;
            self' = (if m_state self \<noteq> TERM_state then self\<lparr>m_state := READY\<rparr> else self)
        in if m_runInScheduler self'
           then Inr (tls', self', Scheduler_main_fiber)
           else Inr (tls', self', Thread_main_fiber))"

text \<open>
  \<open>Fiber::MainFunc\<close> from the point where the coroutine's function has returned: the
  function is dropped, the state becomes \<open>TERM\<close>, and the coroutine yields.
\<close>

definition MainFunc :: "fiber_tls \<Rightarrow> Fiber \<Rightarrow> abort + (fiber_tls \<times> Fiber \<times> partner)" where
  "MainFunc tls cur = yield tls (cur\<lparr>m_cb := None, m_state := TERM_state\<rparr>)"

section \<open>The scheduler's members that the I/O multiplexer reads (scheduler.cc)\<close>

text \<open>
  The source is src/src/scheduler.cc. A scheduler is reached through a pointer (\<open>Scheduler::GetThis()\<close>, or the pointer an
  event slot stores). The pointer either is this I/O multiplexer or is some other
  scheduler, named by a number.
\<close>

datatype sched_ref = This_scheduler | Other_scheduler nat

text \<open>
  \<open>ScheduleTask\<close>: a coroutine or a function, and the thread it is pinned to
  (\<open>-1\<close> for any thread).
\<close>

record ScheduleTask =
  task_fiber :: "fiber_ptr option"
  task_cb :: "callback option"
  task_thread :: int

section \<open>The I/O multiplexer (iomanager.cc)\<close>

subsection \<open>Constants\<close>

text \<open>
  The source is src/tests/iomanager.cc. These are the event bits of \<open>sys/epoll.h\<close>
  that it uses, with their Linux values.
\<close>

definition EPOLLIN :: "32 word" where "EPOLLIN = 0x001"
definition EPOLLOUT :: "32 word" where "EPOLLOUT = 0x004"
definition EPOLLERR :: "32 word" where "EPOLLERR = 0x008"
definition EPOLLHUP :: "32 word" where "EPOLLHUP = 0x010"
definition EPOLLET :: "32 word" where "EPOLLET = 0x80000000"

datatype EpollCtlOp = EPOLL_CTL_ADD | EPOLL_CTL_DEL | EPOLL_CTL_MOD

text \<open>
  \<open>IOManager::Event\<close> is declared in iomanager.h, which is not among the sources. Its
  values are taken equal to \<open>EPOLLIN\<close> and \<open>EPOLLOUT\<close>, as \<open>IOManager::idle\<close>
  presupposes when it intersects \<open>EPOLLIN | EPOLLOUT\<close> with \<open>fd_ctx->events\<close>. An
  event argument is an enum value, that is, an integer: any bit pattern can be passed.
\<close>

definition NONE :: "32 word" where "NONE = 0x0"
definition READ :: "32 word" where "READ = 0x1"
definition WRITE :: "32 word" where "WRITE = 0x4"

subsection \<open>Fd contexts\<close>

text \<open>
  \<open>FdContext::EventContext\<close> and \<open>FdContext\<close>. Record fields are global names in
  Isabelle, so the members carry the prefixes \<open>ec_\<close> and \<open>fc_\<close>; the mutex of a
  context is not modelled.
\<close>

record EventContext =
  ec_scheduler :: "sched_ref option"
  ec_fiber :: "fiber_ptr option"
  ec_cb :: "callback option"

record FdContext =
  fc_read :: EventContext
  fc_write :: EventContext
  fc_fd :: int
  fc_events :: "32 word"

definition empty_EventContext :: EventContext where
  "empty_EventContext = \<lparr>ec_scheduler = None, ec_fiber = None, ec_cb = None\<rparr>"

text \<open>\<open>new FdContext\<close> followed by \<open>fd = i\<close>, as \<open>contextResize\<close> does.\<close>

definition new_FdContext :: "nat \<Rightarrow> FdContext" where
  "new_FdContext i =
     \<lparr>fc_read = empty_EventContext, fc_write = empty_EventContext, fc_fd = int i, fc_events = NONE\<rparr>"

text \<open>
  \<open>FdContext::getEventContext\<close> returns a reference to one of the two slots; the model
  reads the slot with \<open>getEventContext\<close> and writes through the reference with
  \<open>setEventContext\<close>. Any event other than \<open>READ\<close> and \<open>WRITE\<close> reaches
  \<open>assert(false)\<close>.
\<close>

definition getEventContext :: "FdContext \<Rightarrow> 32 word \<Rightarrow> abort + EventContext" where
  "getEventContext ctx event =
     (if event = READ then Inr (fc_read ctx)
      else if event = WRITE then Inr (fc_write ctx)
      else Inl Assertion_failed)"

definition setEventContext :: "FdContext \<Rightarrow> 32 word \<Rightarrow> EventContext \<Rightarrow> FdContext" where
  "setEventContext ctx event ec =
     (if event = READ then ctx\<lparr>fc_read := ec\<rparr>
      else if event = WRITE then ctx\<lparr>fc_write := ec\<rparr>
      else ctx)"

definition resetEventContext :: "EventContext \<Rightarrow> EventContext" where
  "resetEventContext ctx = ctx\<lparr>ec_scheduler := None, ec_fiber := None, ec_cb := None\<rparr>"

text \<open>
  \<open>FdContext::triggerEvent\<close>. The result is the context after the call and the one
  call \<open>ctx.scheduler->schedule(...)\<close> it makes: the scheduler called and the task
  handed over (the function if the slot has one, the coroutine otherwise).
\<close>

definition triggerEvent :: "FdContext \<Rightarrow> 32 word \<Rightarrow> abort + (FdContext \<times> sched_ref \<times> ScheduleTask)" where
  "triggerEvent fd_ctx event =
     (if (fc_events fd_ctx AND event) = 0 then Inl Assertion_failed
      else
        let fd_ctx1 = fd_ctx\<lparr>fc_events := fc_events fd_ctx AND NOT event\<rparr> in
        case getEventContext fd_ctx1 event of
          Inl a \<Rightarrow> Inl a
        | Inr ctx \<Rightarrow>
            (case ec_scheduler ctx of
               None \<Rightarrow> Inl Null_dereference
             | Some sch \<Rightarrow>
                 let task = (case ec_cb ctx of
                               Some c \<Rightarrow> \<lparr>task_fiber = None, task_cb = Some c, task_thread = -1\<rparr>
                             | None \<Rightarrow> \<lparr>task_fiber = ec_fiber ctx, task_cb = None, task_thread = -1\<rparr>)
                 in Inr (setEventContext fd_ctx1 event (resetEventContext ctx), sch, task)))"

subsection \<open>The multiplexer's state\<close>

text \<open>
  \<open>Timer\<close> as timer.h declares it: the flag, the period, the deadline and the
  callback. The callback is \<open>m_cb\<close> in the source; the field is named
  \<open>m_timer_cb\<close> here because \<open>Fiber\<close> has an \<open>m_cb\<close> too. The pointer to the
  manager is left out.
\<close>

record Timer =
  m_recurring :: bool
  m_ms :: "64 word"
  m_next :: "64 word"
  m_timer_cb :: "callback option"

text \<open>
  The members of \<open>IOManager\<close> and of its bases \<open>Scheduler\<close> and \<open>TimerManager\<close> that
  the modelled functions read or write. \<open>m_fdContexts\<close> is the vector of contexts,
  indexed by fd; \<open>m_tickleFds0\<close> is the read end of the pipe, \<open>m_tickleFds[0]\<close>;
  \<open>m_timers\<close> is the timer set in the order of its comparator, earliest deadline
  first. \<open>m_pendingEventCount\<close> and \<open>m_activeThreadCount\<close> are atomic counters of
  type \<open>size_t\<close>, 64 bits wide. \<open>other_scheduled\<close> records, in order, the tasks
  handed to schedulers other than this one.
\<close>

record IOManager =
  m_fdContexts :: "FdContext list"
  m_pendingEventCount :: "64 word"
  m_tickleFds0 :: int
  m_stopping :: bool
  m_tasks :: "ScheduleTask list"
  m_activeThreadCount :: "64 word"
  m_timers :: "Timer list"
  other_scheduled :: "(nat \<times> ScheduleTask) list"

text \<open>
  Modelled from the spec: \<open>Scheduler::schedule\<close> is a template of scheduler.h, which is
  not among the sources. It pushes one task into the FIFO queue of the scheduler it is
  called on; the wake-up it may send (\<open>tickle\<close>) writes to a pipe and changes nothing
  of the state modelled here.
\<close>

definition schedule :: "IOManager \<Rightarrow> sched_ref \<Rightarrow> ScheduleTask \<Rightarrow> IOManager" where
  "schedule s sch task =
     (case sch of
        This_scheduler \<Rightarrow> s\<lparr>m_tasks := m_tasks s @ [task]\<rparr>
      | Other_scheduler p \<Rightarrow> s\<lparr>other_scheduled := other_scheduled s @ [(p, task)]\<rparr>)"

text \<open>
  \<open>fd_ctx->triggerEvent(event)\<close> for the context at index \<open>i\<close> of the table, which the
  callers have already read: the context is replaced in the table and the task is
  scheduled.
\<close>

definition trigger_at :: "IOManager \<Rightarrow> nat \<Rightarrow> 32 word \<Rightarrow> abort + IOManager" where
  "trigger_at s i event =
     (case triggerEvent (m_fdContexts s ! i) event of
        Inl a \<Rightarrow> Inl a
      | Inr (fd_ctx', sch, task) \<Rightarrow>
          Inr (schedule (s\<lparr>m_fdContexts := (m_fdContexts s)[i := fd_ctx']\<rparr>) sch task))"

text \<open>
  \<open>IOManager::contextResize\<close>: the vector is resized and every new place gets a fresh
  context whose \<open>fd\<close> is its index.
\<close>

definition contextResize :: "FdContext list \<Rightarrow> nat \<Rightarrow> FdContext list" where
  "contextResize ctxs sz =
     (if sz \<le> length ctxs then take sz ctxs
      else ctxs @ map new_FdContext [length ctxs ..< sz])"

text \<open>
  What the calling thread supplies to \<open>addEvent\<close>: \<open>Scheduler::GetThis()\<close>, which may be
  null, and \<open>Fiber::GetThis()\<close> with the state of that coroutine.
\<close>

record caller =
  cur_scheduler :: "sched_ref option"
  cur_fiber :: fiber_ptr
  cur_fiber_state :: State

text \<open>
  The kernel's answer to \<open>epoll_ctl(m_epfd, op, fd, &epevent)\<close> is a parameter of every
  operation that makes the call: a function of the operation, the fd and the event mask
  passed, giving the return value.
\<close>

type_synonym epoll_ctl_fn = "EpollCtlOp \<Rightarrow> int \<Rightarrow> 32 word \<Rightarrow> int"

subsection \<open>Registering and removing events\<close>

text \<open>
  The first statement of \<open>addEvent\<close>, which makes \<open>fd_ctx\<close> point to the context of
  \<open>fd\<close>: when \<open>fd\<close> is not below the size of the table, the table is first resized to
  \<open>fd * 1.5\<close>, truncated.
\<close>

definition grow_table :: "IOManager \<Rightarrow> int \<Rightarrow> IOManager" where
  "grow_table s fd =
     (if int (length (m_fdContexts s)) > fd then s
      else s\<lparr>m_fdContexts := contextResize (m_fdContexts s) (nat (fd * 3 div 2))\<rparr>)"

text \<open>
  \<open>IOManager::addEvent\<close>. A negative \<open>fd\<close> passes the size test and indexes the vector
  out of bounds, and so does an \<open>fd\<close> that the resized table still does not hold.
  \<open>setnonblocking(fd)\<close> changes the file status flags of \<open>fd\<close>, which the kernel keeps,
  and nothing of \<open>IOManager\<close>; it does not appear below.
\<close>

definition addEvent ::
  "epoll_ctl_fn \<Rightarrow> caller \<Rightarrow> IOManager \<Rightarrow> int \<Rightarrow> 32 word \<Rightarrow> callback option \<Rightarrow> abort + (int \<times> IOManager)" where
  "addEvent epoll_ctl env s fd event cb =
     (let s1 = grow_table s fd in
      if fd < 0 \<or> length (m_fdContexts s1) \<le> nat fd then Inl Out_of_bounds
      else
        let fd_ctx = m_fdContexts s1 ! nat fd in
        if (fc_events fd_ctx AND event) \<noteq> 0 then Inl Assertion_failed
        else
          let op = (if fc_events fd_ctx \<noteq> 0 then EPOLL_CTL_MOD else EPOLL_CTL_ADD);
              rt = epoll_ctl op fd (EPOLLET OR fc_events fd_ctx OR event)
          in
          if rt \<noteq> 0 then Inr (-1, s1)
          else
            let s2 = s1\<lparr>m_pendingEventCount := m_pendingEventCount s1 + 1\<rparr>;
                fd_ctx1 = fd_ctx\<lparr>fc_events := fc_events fd_ctx OR event\<rparr>
            in
            case getEventContext fd_ctx1 event of
              Inl a \<Rightarrow> Inl a
            | Inr event_ctx \<Rightarrow>
                if \<not> (ec_scheduler event_ctx = None \<and> ec_fiber event_ctx = None \<and> ec_cb event_ctx = None)
                then Inl Assertion_failed
                else
                  let event_ctx1 = event_ctx\<lparr>ec_scheduler := cur_scheduler env\<rparr> in
                  (case cb of
                     Some c \<Rightarrow>
                       Inr (0, s2\<lparr>m_fdContexts := (m_fdContexts s2)
                                  [nat fd := setEventContext fd_ctx1 event (event_ctx1\<lparr>ec_cb := Some c\<rparr>)]\<rparr>)
                   | None \<Rightarrow>
                       if cur_fiber_state env \<noteq> RUNNING then Inl Assertion_failed
                       else
                         Inr (0, s2\<lparr>m_fdContexts := (m_fdContexts s2)
                                  [nat fd := setEventContext fd_ctx1 event
                                               (event_ctx1\<lparr>ec_fiber := Some (cur_fiber env)\<rparr>)]\<rparr>)))"

text \<open>
  \<open>IOManager::delEvent\<close>: the direction is cleared and its slot reset, nothing is
  scheduled.
\<close>

definition delEvent :: "epoll_ctl_fn \<Rightarrow> IOManager \<Rightarrow> int \<Rightarrow> 32 word \<Rightarrow> abort + (bool \<times> IOManager)" where
  "delEvent epoll_ctl s fd event =
     (if int (length (m_fdContexts s)) \<le> fd then Inr (False, s)
      else if fd < 0 then Inl Out_of_bounds
      else
        let fd_ctx = m_fdContexts s ! nat fd in
        if (fc_events fd_ctx AND event) = 0 then Inr (False, s)
        else
          let new_events = fc_events fd_ctx AND NOT event;
              op = (if new_events \<noteq> 0 then EPOLL_CTL_MOD else EPOLL_CTL_DEL);
              rt = epoll_ctl op fd (EPOLLET OR new_events)
          in
          if rt \<noteq> 0 then Inr (False, s)
          else
            let s1 = s\<lparr>m_pendingEventCount := m_pendingEventCount s - 1\<rparr>;
                fd_ctx1 = fd_ctx\<lparr>fc_events := new_events\<rparr>
            in
            case getEventContext fd_ctx1 event of
              Inl a \<Rightarrow> Inl a
            | Inr event_ctx \<Rightarrow>
                Inr (True, s1\<lparr>m_fdContexts := (m_fdContexts s1)
                                [nat fd := setEventContext fd_ctx1 event (resetEventContext event_ctx)]\<rparr>))"

text \<open>\<open>IOManager::cancelEvent\<close>: as \<open>delEvent\<close>, but the event is triggered once.\<close>

definition cancelEvent :: "epoll_ctl_fn \<Rightarrow> IOManager \<Rightarrow> int \<Rightarrow> 32 word \<Rightarrow> abort + (bool \<times> IOManager)" where
  "cancelEvent epoll_ctl s fd event =
     (if int (length (m_fdContexts s)) \<le> fd then Inr (False, s)
      else if fd < 0 then Inl Out_of_bounds
      else
        let fd_ctx = m_fdContexts s ! nat fd in
        if (fc_events fd_ctx AND event) = 0 then Inr (False, s)
        else
          let new_events = fc_events fd_ctx AND NOT event;
              op = (if new_events \<noteq> 0 then EPOLL_CTL_MOD else EPOLL_CTL_DEL);
              rt = epoll_ctl op fd (EPOLLET OR new_events)
          in
          if rt \<noteq> 0 then Inr (False, s)
          else
            case trigger_at s (nat fd) event of
              Inl a \<Rightarrow> Inl a
            | Inr s1 \<Rightarrow> Inr (True, s1\<lparr>m_pendingEventCount := m_pendingEventCount s1 - 1\<rparr>))"

text \<open>
  The two statements \<open>fd_ctx->triggerEvent(event); --m_pendingEventCount;\<close>, as they
  stand together in \<open>cancelAll\<close> and in \<open>idle\<close>.
\<close>

definition trigger_and_count :: "IOManager \<Rightarrow> nat \<Rightarrow> 32 word \<Rightarrow> abort + IOManager" where
  "trigger_and_count s i event =
     (case trigger_at s i event of
        Inl a \<Rightarrow> Inl a
      | Inr t \<Rightarrow> Inr (t\<lparr>m_pendingEventCount := m_pendingEventCount t - 1\<rparr>))"

text \<open>
  The statement \<open>if (cond) { fd_ctx->triggerEvent(event); --m_pendingEventCount; }\<close>.
\<close>

definition fire_if :: "bool \<Rightarrow> IOManager \<Rightarrow> nat \<Rightarrow> 32 word \<Rightarrow> abort + IOManager" where
  "fire_if cond s i event = (if cond then trigger_and_count s i event else Inr s)"

text \<open>
  \<open>IOManager::cancelAll\<close>: the fd is removed from the kernel's interest list and each
  registered direction is triggered; the final assertion requires an empty mask.
\<close>

definition cancelAll :: "epoll_ctl_fn \<Rightarrow> IOManager \<Rightarrow> int \<Rightarrow> abort + (bool \<times> IOManager)" where
  "cancelAll epoll_ctl s fd =
     (if int (length (m_fdContexts s)) \<le> fd then Inr (False, s)
      else if fd < 0 then Inl Out_of_bounds
      else
        if fc_events (m_fdContexts s ! nat fd) = 0 then Inr (False, s)
        else
          let rt = epoll_ctl EPOLL_CTL_DEL fd 0 in
          if rt \<noteq> 0 then Inr (False, s)
          else
            case fire_if ((fc_events (m_fdContexts s ! nat fd) AND READ) \<noteq> 0) s (nat fd) READ of
              Inl a \<Rightarrow> Inl a
            | Inr s1 \<Rightarrow>
                (case fire_if ((fc_events (m_fdContexts s1 ! nat fd) AND WRITE) \<noteq> 0) s1 (nat fd) WRITE of
                   Inl a \<Rightarrow> Inl a
                 | Inr s2 \<Rightarrow>
                     if fc_events (m_fdContexts s2 ! nat fd) \<noteq> 0 then Inl Assertion_failed
                     else Inr (True, s2)))"

subsection \<open>Timers and the stopping checks\<close>

text \<open>
  Modelled from the spec: \<open>TimerManager::getNextTimer\<close> and \<open>TimerManager::hasTimer\<close>
  are declared in timer.h and defined in a file that is not among the sources.
  \<open>getNextTimer\<close> gives the milliseconds until the earliest deadline, and the saturated
  value \<open>~0ull\<close> when the set is empty; \<open>now\<close> is the clock's reading.
\<close>

definition getNextTimer :: "64 word \<Rightarrow> IOManager \<Rightarrow> 64 word" where
  "getNextTimer now s =
     (case m_timers s of
        [] \<Rightarrow> - 1
      | t # _ \<Rightarrow> if m_next t \<le> now then 0 else m_next t - now)"

definition hasTimer :: "IOManager \<Rightarrow> bool" where
  "hasTimer s = (m_timers s \<noteq> [])"

text \<open>\<open>Scheduler::stopping\<close> of scheduler.cc.\<close>

definition Scheduler_stopping :: "IOManager \<Rightarrow> bool" where
  "Scheduler_stopping s = (m_stopping s \<and> m_tasks s = [] \<and> m_activeThreadCount s = 0)"

text \<open>\<open>IOManager::stopping()\<close>, the override without argument.\<close>

definition stopping :: "IOManager \<Rightarrow> bool" where
  "stopping s = (m_pendingEventCount s = 0 \<and> Scheduler_stopping s)"

text \<open>
  \<open>IOManager::stopping(uint64_t& timeout)\<close>: the value stored into \<open>timeout\<close> and the
  value returned.
\<close>

definition stopping_timeout :: "64 word \<Rightarrow> IOManager \<Rightarrow> 64 word \<times> bool" where
  "stopping_timeout now s =
     (let timeout = getNextTimer now s
      in (timeout, timeout = - 1 \<and> m_pendingEventCount s = 0 \<and> Scheduler_stopping s))"

subsection \<open>The idle coroutine\<close>

definition MAX_EVNETS :: "64 word" where "MAX_EVNETS = 256"
definition MAX_TIMEOUT :: "32 word" where "MAX_TIMEOUT = 5000"
definition EINTR :: int where "EINTR = 4"

text \<open>
  An \<open>epoll_event\<close>. Its \<open>data\<close> is a union: the pipe's event carries an fd, the event
  of a registered fd carries the pointer to its context, which is the index of the
  context in \<open>m_fdContexts\<close>.
\<close>

datatype epoll_data = Data_fd int | Data_ptr nat

record epoll_event =
  ev_events :: "32 word"
  ev_data :: epoll_data

text \<open>An element of \<open>new epoll_event[MAX_EVNETS]()\<close>: all bytes zero.\<close>

definition zero_epoll_event :: epoll_event where
  "zero_epoll_event = \<lparr>ev_events = 0, ev_data = Data_fd 0\<rparr>"

text \<open>
  One call of \<open>epoll_wait\<close>: the arguments \<open>maxevents\<close> and \<open>timeout\<close> the code
  passes, and what the kernel answers: the return value, \<open>errno\<close> after the call, and
  the events written to the front of the buffer.
\<close>

record epoll_wait_call =
  maxevents :: int
  timeout :: int

record epoll_wait_result =
  wait_rt :: int
  wait_errno :: int
  wait_events :: "epoll_event list"

text \<open>
  The variables of the inner \<open>do ... while (true)\<close> loop of \<open>idle\<close>: \<open>next_timeout\<close>,
  the buffer \<open>events\<close>, the calls of \<open>epoll_wait\<close> made so far, and whether the loop was
  left through \<open>break\<close>.
\<close>

record wait_loop =
  next_timeout :: "64 word"
  events :: "epoll_event list"
  calls :: "epoll_wait_call list"
  left_loop :: bool

text \<open>
  \<open>next_timeout = std::min((int)next_timeout, MAX_TIMEOUT)\<close>, or \<open>MAX_TIMEOUT\<close> when
  \<open>next_timeout\<close> is \<open>~0ull\<close>: the comparison is on \<open>int\<close>, the result is converted
  back to \<open>uint64_t\<close>.
\<close>

definition clamp_timeout :: "64 word \<Rightarrow> 64 word" where
  "clamp_timeout nt =
     (if nt \<noteq> - 1
      then (let t = (ucast nt :: 32 word) in scast (if MAX_TIMEOUT <s t then MAX_TIMEOUT else t))
      else scast MAX_TIMEOUT)"

text \<open>
  The inner loop, run against the answers the kernel gives to the successive calls of
  \<open>epoll_wait\<close>. Each pass clamps \<open>next_timeout\<close> and calls
  \<open>epoll_wait(m_epfd, events, MAX_EVNETS, MAX_TIMEOUT)\<close>; the return value goes to a
  variable \<open>rt\<close> declared inside the loop body. A negative return value with \<open>EINTR\<close>
  continues the loop, any other negative return value leaves it, and a return value that
  is not negative reaches the loop's condition, which is \<open>true\<close>. When the answers are
  used up the loop has not been left: the thread is in its next call of \<open>epoll_wait\<close>.
\<close>

fun epoll_wait_loop :: "wait_loop \<Rightarrow> epoll_wait_result list \<Rightarrow> wait_loop" where
  "epoll_wait_loop w [] = w"
| "epoll_wait_loop w (r # rs) =
     (let w1 = w\<lparr>next_timeout := clamp_timeout (next_timeout w),
                 calls := calls w @ [\<lparr>maxevents = uint MAX_EVNETS, timeout = sint MAX_TIMEOUT\<rparr>],
                 events := wait_events r @ drop (length (wait_events r)) (events w)\<rparr>
      in if wait_rt r < 0
         then (if wait_errno r = EINTR then epoll_wait_loop w1 rs
               else w1\<lparr>left_loop := True\<rparr>)
         else epoll_wait_loop w1 rs)"

text \<open>
  The body of the \<open>for\<close> loop of \<open>idle\<close> for one event of the buffer. An event whose
  data is neither the pipe's fd nor a pointer to a context makes the code use a pointer
  that points to no context.
\<close>

definition dispatch_event :: "epoll_ctl_fn \<Rightarrow> IOManager \<Rightarrow> epoll_event \<Rightarrow> abort + IOManager" where
  "dispatch_event epoll_ctl s event =
     (case ev_data event of
        Data_fd f \<Rightarrow> if f = m_tickleFds0 s then Inr s else Inl Null_dereference
      | Data_ptr i \<Rightarrow>
          if length (m_fdContexts s) \<le> i then Inl Out_of_bounds
          else
            let fd_ctx = m_fdContexts s ! i;
                ev = (if (ev_events event AND (EPOLLERR OR EPOLLHUP)) \<noteq> 0
                      then ev_events event OR ((EPOLLIN OR EPOLLOUT) AND fc_events fd_ctx)
                      else ev_events event);
                real_events = (if (ev AND EPOLLIN) \<noteq> 0 then READ else NONE)
                              OR (if (ev AND EPOLLOUT) \<noteq> 0 then WRITE else NONE)
            in
            if (fc_events fd_ctx AND real_events) = NONE then Inr s
            else
              let left_events = fc_events fd_ctx AND NOT real_events;
                  op = (if left_events \<noteq> 0 then EPOLL_CTL_MOD else EPOLL_CTL_DEL);
                  rt2 = epoll_ctl op (fc_fd fd_ctx) (EPOLLET OR left_events)
              in
              if rt2 \<noteq> 0 then Inr s
              else
                (case fire_if ((real_events AND READ) \<noteq> 0) s i READ of
                   Inl a \<Rightarrow> Inl a
                 | Inr s1 \<Rightarrow> fire_if ((real_events AND WRITE) \<noteq> 0) s1 i WRITE))"

fun dispatch_events :: "epoll_ctl_fn \<Rightarrow> IOManager \<Rightarrow> epoll_event list \<Rightarrow> abort + IOManager" where
  "dispatch_events epoll_ctl s [] = Inr s"
| "dispatch_events epoll_ctl s (e # es) =
     (case dispatch_event epoll_ctl s e of
        Inl a \<Rightarrow> Inl a
      | Inr s' \<Rightarrow> dispatch_events epoll_ctl s' es)"

text \<open>
  How one pass of the outer \<open>while (true)\<close> loop of \<open>idle\<close> ends: the loop is left
  because the multiplexer is stopping; or the thread stays in the inner loop; or the pass
  reaches \<open>raw_ptr->yield()\<close>.
\<close>

datatype idle_outcome = Idle_break | Idle_waiting wait_loop | Idle_yield IOManager wait_loop

text \<open>
  One pass of the outer loop of \<open>IOManager::idle\<close>. The stopping check is the call
  \<open>stopping()\<close>. The \<open>for\<close> loop runs over the first \<open>rt\<close> events of the buffer, where
  \<open>rt\<close> is the variable declared before the inner loop, which is \<open>0\<close>. The function
  \<open>listExpiredCb\<close> of \<open>TimerManager\<close> is not among the sources and is a parameter: from
  the timer set it gives the callbacks it collects and the timer set it leaves; each
  callback is scheduled on this scheduler. The buffer is allocated before the loop, so
  it is an argument of each pass.
\<close>

definition idle_pass ::
  "epoll_ctl_fn \<Rightarrow> (Timer list \<Rightarrow> callback list \<times> Timer list) \<Rightarrow> IOManager \<Rightarrow> epoll_event list
     \<Rightarrow> epoll_wait_result list \<Rightarrow> abort + idle_outcome" where
  "idle_pass epoll_ctl listExpiredCb s buffer answers =
     (if stopping s then Inr Idle_break
      else
        let rt = (0 :: int);
            w = epoll_wait_loop
                  \<lparr>next_timeout = 0, events = buffer, calls = [], left_loop = False\<rparr> answers
        in
        if \<not> left_loop w then Inr (Idle_waiting w)
        else
          let (cbs, timers') = listExpiredCb (m_timers s);
              s1 = fold (\<lambda>cb t. schedule t This_scheduler
                                   \<lparr>task_fiber = None, task_cb = Some cb, task_thread = -1\<rparr>)
                        cbs (s\<lparr>m_timers := timers'\<rparr>)
          in
          case dispatch_events epoll_ctl s1 (take (nat rt) (events w)) of
            Inl a \<Rightarrow> Inl a
          | Inr s2 \<Rightarrow> Inr (Idle_yield s2 w))"

section \<open>The syscall hooks (hook.cc)\<close>

subsection \<open>Constants and the fd context of the hooks\<close>

text \<open>
  The source is the second part of src/tests/test_iomanager.cc, the one that includes
  hook.h. These are the values of \<open>errno.h\<close>, \<open>fcntl.h\<close> and \<open>sys/socket.h\<close> that
  the hooks use, as on Linux. \<open>O_NONBLOCK\<close> is the single bit \<open>04000\<close>.
\<close>

definition EBADF :: int where "EBADF = 9"
definition EAGAIN :: int where "EAGAIN = 11"
definition ETIMEDOUT :: int where "ETIMEDOUT = 110"
definition O_NONBLOCK :: "32 word" where "O_NONBLOCK = 0x800"
definition SO_RCVTIMEO :: int where "SO_RCVTIMEO = 20"
definition SO_SNDTIMEO :: int where "SO_SNDTIMEO = 21"

text \<open>
  Modelled from the spec: \<open>FdCtx\<close> and \<open>FdManager\<close> are declared in fd_manager.h, which
  is not among the sources. The spec gives an fd context the attributes \<open>is_socket\<close>,
  \<open>is_closed\<close>, \<open>sys_nonblock\<close> (the kernel flag is actually set), \<open>user_nonblock\<close>
  (what the user asked for) and a timeout in milliseconds for each direction. The
  accessors below are the ones hook.cc calls; each reads or writes one attribute.
\<close>

record FdCtx =
  is_socket :: bool
  is_closed :: bool
  sys_nonblock :: bool
  user_nonblock :: bool
  recv_timeout_ms :: "64 word"
  send_timeout_ms :: "64 word"

definition isSocket :: "FdCtx \<Rightarrow> bool" where "isSocket ctx = is_socket ctx"
definition isClose :: "FdCtx \<Rightarrow> bool" where "isClose ctx = is_closed ctx"
definition getSysNonblock :: "FdCtx \<Rightarrow> bool" where "getSysNonblock ctx = sys_nonblock ctx"
definition getUserNonblock :: "FdCtx \<Rightarrow> bool" where "getUserNonblock ctx = user_nonblock ctx"

definition setUserNonblock :: "FdCtx \<Rightarrow> bool \<Rightarrow> FdCtx" where
  "setUserNonblock ctx v = ctx\<lparr>user_nonblock := v\<rparr>"

definition getTimeout :: "FdCtx \<Rightarrow> int \<Rightarrow> 64 word" where
  "getTimeout ctx type = (if type = SO_RCVTIMEO then recv_timeout_ms ctx else send_timeout_ms ctx)"

text \<open>
  The table of \<open>FdManager\<close>: \<open>get(fd)\<close> gives the context of \<open>fd\<close>, or a null pointer,
  \<open>None\<close>, when there is none.
\<close>

type_synonym FdManager = "int \<Rightarrow> FdCtx option"

subsection \<open>The template \<open>do_io\<close>\<close>

text \<open>\<open>struct timer_info\<close>, the witness shared by an operation and its timer.\<close>

record timer_info =
  cancelled :: int

text \<open>
  The function that \<open>do_io\<close> gives to \<open>addConditionTimer\<close>. Its argument is what
  \<open>winfo.lock()\<close> finds: the witness, or nothing when it is gone. The result is the
  witness afterwards and whether \<open>iom->cancelEvent(fd, event)\<close> was called.
\<close>

definition timeout_callback :: "timer_info option \<Rightarrow> timer_info option \<times> bool" where
  "timeout_callback t =
     (case t of
        None \<Rightarrow> (None, False)
      | Some ti \<Rightarrow>
          if cancelled ti \<noteq> 0 then (Some ti, False)
          else (Some (ti\<lparr>cancelled := ETIMEDOUT\<rparr>), True))"

text \<open>
  What the surroundings answer while \<open>do_io\<close> runs. An \<open>io_call\<close> is one call of the
  original function: its return value and \<open>errno\<close> after it. A \<open>suspension\<close> is one
  pass through the branch for \<open>EAGAIN\<close>: the return value of \<open>iom->addEvent(fd, event)\<close>
  and \<open>errno\<close> after it, and, when the coroutine yields, whether the timer's function
  has run by the time the coroutine is resumed.
\<close>

record io_call =
  io_n :: int
  io_errno :: int

record suspension =
  add_rt :: int
  add_errno :: int
  timer_fired :: bool

text \<open>
  What \<open>do_io\<close> returns: the value, \<open>errno\<close>, and the number of calls of the original
  function it has made.
\<close>

record io_result =
  io_return :: int
  errno :: int
  calls_made :: nat

text \<open>
  \<open>n = fun(...); while (n == -1 && errno == EINTR) n = fun(...);\<close> run against the
  answers of the original function: the last answer, the answers left and the count of
  calls. \<open>None\<close> means that the answers are used up: the operation is inside a call.
\<close>

fun call_until_not_EINTR :: "io_call list \<Rightarrow> nat \<Rightarrow> (io_call \<times> io_call list \<times> nat) option" where
  "call_until_not_EINTR [] k = None"
| "call_until_not_EINTR (c # cs) k =
     (if io_n c = - 1 \<and> io_errno c = EINTR then call_until_not_EINTR cs (Suc k)
      else Some (c, cs, Suc k))"

text \<open>
  \<open>do_io\<close> from the label \<open>retry\<close>. \<open>to\<close> is the timeout of the direction and
  \<open>tinfo\<close> the witness. On \<open>EAGAIN\<close> the timer is armed when \<open>to\<close> is not
  \<open>(uint64_t)-1\<close>, the event is added, and the coroutine yields; if the armed timer's
  function runs before the coroutine continues, it finds the witness, which the frame of
  \<open>do_io\<close> keeps alive. After the yield a cancelled witness ends the operation with its
  \<open>cancelled\<close> value as \<open>errno\<close>; otherwise control goes back to \<open>retry\<close>. The fd,
  the event and the multiplexer do not influence the value returned and are left out.
\<close>

fun do_io_retry ::
  "64 word \<Rightarrow> timer_info \<Rightarrow> suspension list \<Rightarrow> io_call list \<Rightarrow> nat \<Rightarrow> io_result option" where
  "do_io_retry to tinfo susps answers k =
     (case call_until_not_EINTR answers k of
        None \<Rightarrow> None
      | Some (c, rest, k') \<Rightarrow>
          if io_n c = - 1 \<and> io_errno c = EAGAIN
          then (case susps of
                  [] \<Rightarrow> None
                | s # ss \<Rightarrow>
                    if add_rt s \<noteq> 0
                    then Some \<lparr>io_return = - 1, errno = add_errno s, calls_made = k'\<rparr>
                    else
                      let tinfo' = (if to \<noteq> - 1 \<and> timer_fired s
                                    then (case fst (timeout_callback (Some tinfo)) of
                                            Some t \<Rightarrow> t
                                          | None \<Rightarrow> tinfo)
                                    else tinfo)
                      in if cancelled tinfo' \<noteq> 0
                         then Some \<lparr>io_return = - 1, errno = cancelled tinfo', calls_made = k'\<rparr>
                         else do_io_retry to tinfo' ss rest k')
          else Some \<lparr>io_return = io_n c, errno = io_errno c, calls_made = k'\<rparr>)"

text \<open>\<open>return fun(fd, args...)\<close>: one call of the original function.\<close>

definition call_original :: "io_call list \<Rightarrow> io_result option" where
  "call_original answers =
     (case answers of
        [] \<Rightarrow> None
      | c # cs \<Rightarrow> Some \<lparr>io_return = io_n c, errno = io_errno c, calls_made = 1\<rparr>)"

text \<open>
  \<open>do_io\<close>: \<open>hook_enable\<close> is \<open>t_hook_enable\<close>, \<open>ctx\<close> is what
  \<open>FdMgr::GetInstance()->get(fd)\<close> returns, \<open>timeout_so\<close> selects the timeout.
\<close>

definition do_io ::
  "bool \<Rightarrow> FdCtx option \<Rightarrow> int \<Rightarrow> suspension list \<Rightarrow> io_call list \<Rightarrow> io_result option" where
  "do_io hook_enable ctx timeout_so susps answers =
     (if \<not> hook_enable then call_original answers
      else
        case ctx of
          None \<Rightarrow> call_original answers
        | Some c \<Rightarrow>
            if isClose c then Some \<lparr>io_return = - 1, errno = EBADF, calls_made = 0\<rparr>
            else if \<not> isSocket c \<or> getUserNonblock c then call_original answers
            else do_io_retry (getTimeout c timeout_so) \<lparr>cancelled = 0\<rparr> susps answers 0)"

subsection \<open>The hook of \<open>fcntl\<close>\<close>

text \<open>
  The commands of \<open>fcntl\<close> with their argument. \<open>F_SETFL\<close> and \<open>F_GETFL\<close> are the two
  commands the hook treats; every other command, whatever its argument, is passed to the
  original function unchanged.
\<close>

datatype fcntl_cmd = F_SETFL "32 word" | F_GETFL | Other_cmd int

text \<open>
  The hook \<open>fcntl\<close>. \<open>fcntl_f\<close> is the original function: from the fd and the command
  with its argument it gives the return value. The result is the hook's return value and
  the table of fd contexts afterwards.
\<close>

definition fcntl :: "(int \<Rightarrow> fcntl_cmd \<Rightarrow> 32 word) \<Rightarrow> FdManager \<Rightarrow> int \<Rightarrow> fcntl_cmd \<Rightarrow> 32 word \<times> FdManager" where
  "fcntl fcntl_f mgr fd cmd =
     (case cmd of
        F_SETFL arg \<Rightarrow>
          (case mgr fd of
             None \<Rightarrow> (fcntl_f fd (F_SETFL arg), mgr)
           | Some ctx \<Rightarrow>
               if isClose ctx \<or> \<not> isSocket ctx then (fcntl_f fd (F_SETFL arg), mgr)
               else
                 let ctx' = setUserNonblock ctx ((arg AND O_NONBLOCK) \<noteq> 0);
                     arg' = (if getSysNonblock ctx' then arg OR O_NONBLOCK
                             else arg AND NOT O_NONBLOCK)
                 in (fcntl_f fd (F_SETFL arg'), mgr(fd := Some ctx')))
      | F_GETFL \<Rightarrow>
          (let arg = fcntl_f fd F_GETFL in
           case mgr fd of
             None \<Rightarrow> (arg, mgr)
           | Some ctx \<Rightarrow>
               if isClose ctx \<or> \<not> isSocket ctx then (arg, mgr)
               else if getUserNonblock ctx then (arg OR O_NONBLOCK, mgr)
               else (arg AND NOT O_NONBLOCK, mgr))
      | Other_cmd c \<Rightarrow> (fcntl_f fd (Other_cmd c), mgr))"

section \<open>Observations and example states\<close>

text \<open>
  The context of \<open>fd\<close> as the table holds it. An fd beyond the table has no context yet;
  the context it gets when the table grows is a fresh one, with no registered event and
  both slots empty.
\<close>

definition fd_context :: "IOManager \<Rightarrow> int \<Rightarrow> FdContext" where
  "fd_context s fd =
     (if 0 \<le> fd \<and> nat fd < length (m_fdContexts s) then m_fdContexts s ! nat fd
      else new_FdContext (nat fd))"

text \<open>The registered-events mask of \<open>fd\<close>.\<close>

definition fd_events :: "IOManager \<Rightarrow> int \<Rightarrow> 32 word" where
  "fd_events s fd = fc_events (fd_context s fd)"

text \<open>The slot that a successful \<open>addEvent\<close> leaves for the direction it registers.\<close>

definition registered_slot :: "caller \<Rightarrow> callback option \<Rightarrow> EventContext" where
  "registered_slot env cb =
     \<lparr>ec_scheduler = cur_scheduler env,
      ec_fiber = (case cb of None \<Rightarrow> Some (cur_fiber env) | Some c \<Rightarrow> None),
      ec_cb = cb\<rparr>"

text \<open>
  A multiplexer with a table of four contexts, in which fd 3 has a function waiting for
  \<open>READ\<close>, and a calling thread whose current coroutine is running.
\<close>

definition example_iom :: IOManager where
  "example_iom =
     \<lparr>m_fdContexts = [new_FdContext 0, new_FdContext 1, new_FdContext 2,
                       (new_FdContext 3)\<lparr>fc_events := READ,
                          fc_read := \<lparr>ec_scheduler = Some This_scheduler, ec_fiber = None, ec_cb = Some 11\<rparr>\<rparr>],
      m_pendingEventCount = 1, m_tickleFds0 = 5, m_stopping = False, m_tasks = [],
      m_activeThreadCount = 0, m_timers = [], other_scheduled = []\<rparr>"

definition example_caller :: caller where
  "example_caller = \<lparr>cur_scheduler = Some This_scheduler, cur_fiber = 7, cur_fiber_state = RUNNING\<rparr>"

text \<open>
  The number of directions, \<open>READ\<close> and \<open>WRITE\<close>, that a mask registers; the number
  of directions of \<open>fd\<close> that are registered in \<open>s\<close> and no longer in \<open>s'\<close>; and the
  number of registered directions over all contexts of the table.
\<close>

definition ndirs :: "32 word \<Rightarrow> nat" where
  "ndirs m = (if (m AND READ) \<noteq> 0 then 1 else 0) + (if (m AND WRITE) \<noteq> 0 then 1 else 0)"

definition cleared :: "IOManager \<Rightarrow> IOManager \<Rightarrow> int \<Rightarrow> nat" where
  "cleared s s' fd = ndirs (fd_events s fd) - ndirs (fd_events s' fd)"

definition total_registered :: "IOManager \<Rightarrow> nat" where
  "total_registered s = sum_list (map (\<lambda>c. ndirs (fc_events c)) (m_fdContexts s))"

text \<open>
  The relation between the states before and after a step that only rewrites the context
  at index \<open>i\<close>, clears directions there, and counts each one down.
\<close>

definition counts_cleared :: "IOManager \<Rightarrow> IOManager \<Rightarrow> nat \<Rightarrow> bool" where
  "counts_cleared s t i \<longleftrightarrow>
     i < length (m_fdContexts s)
     \<and> (\<exists>c'. m_fdContexts t = (m_fdContexts s)[i := c']
            \<and> ndirs (fc_events c') \<le> ndirs (fc_events (m_fdContexts s ! i))
            \<and> m_pendingEventCount t = m_pendingEventCount s
                 - of_nat (ndirs (fc_events (m_fdContexts s ! i)) - ndirs (fc_events c')))"

text \<open>
  A kernel that accepts every \<open>epoll_ctl\<close> call; the example multiplexer after fd 3 has
  also registered a function for \<open>WRITE\<close>; and the example multiplexer after the
  functions \<open>cbs\<close> of fd 3 have been triggered.
\<close>

definition kernel_ok :: epoll_ctl_fn where
  "kernel_ok op fd m = 0"

definition example_iom_rw :: IOManager where
  "example_iom_rw =
     example_iom\<lparr>m_fdContexts := [new_FdContext 0, new_FdContext 1, new_FdContext 2,
                       (new_FdContext 3)\<lparr>fc_events := READ OR WRITE,
                          fc_read := \<lparr>ec_scheduler = Some This_scheduler, ec_fiber = None, ec_cb = Some 11\<rparr>,
                          fc_write := \<lparr>ec_scheduler = Some This_scheduler, ec_fiber = None, ec_cb = Some 4\<rparr>\<rparr>],
                   m_pendingEventCount := 2\<rparr>"

definition example_iom_fired :: "callback list \<Rightarrow> IOManager" where
  "example_iom_fired cbs =
     example_iom\<lparr>m_fdContexts := [new_FdContext 0, new_FdContext 1, new_FdContext 2, new_FdContext 3],
                   m_pendingEventCount := 0,
                   m_tasks := map (\<lambda>c. \<lparr>task_fiber = None, task_cb = Some c, task_thread = - 1\<rparr>) cbs\<rparr>"

text \<open>
  A timer due at time 100, the example multiplexer with that timer pending, and a
  multiplexer that has been told to stop, has no task, no active thread and no pending
  event, but still has the timer. An event as \<open>epoll_wait\<close> reports it when fd 3 is
  readable. A \<open>listExpiredCb\<close> that finds no expired timer.
\<close>

definition example_timer :: Timer where
  "example_timer = \<lparr>m_recurring = False, m_ms = 100, m_next = 100, m_timer_cb = Some 21\<rparr>"

definition example_timer_iom :: IOManager where
  "example_timer_iom = example_iom\<lparr>m_timers := [example_timer]\<rparr>"

definition example_stopping_iom :: IOManager where
  "example_stopping_iom =
     \<lparr>m_fdContexts = [new_FdContext 0, new_FdContext 1, new_FdContext 2, new_FdContext 3],
      m_pendingEventCount = 0, m_tickleFds0 = 5, m_stopping = True, m_tasks = [],
      m_activeThreadCount = 0, m_timers = [example_timer], other_scheduled = []\<rparr>"

definition example_ready :: epoll_event where
  "example_ready = \<lparr>ev_events = EPOLLIN, ev_data = Data_ptr 3\<rparr>"

definition no_expired :: "Timer list \<Rightarrow> callback list \<times> Timer list" where
  "no_expired ts = ([], ts)"

text \<open>
  One attempt of a hooked operation that finds the fd not ready: \<open>k\<close> calls of the
  original function interrupted by a signal, then one that fails with \<open>EAGAIN\<close>.
\<close>

definition blocked_attempt :: "nat \<Rightarrow> io_call list" where
  "blocked_attempt k =
     replicate k \<lparr>io_n = - 1, io_errno = EINTR\<rparr> @ [\<lparr>io_n = - 1, io_errno = EAGAIN\<rparr>]"

text \<open>
  The context of an open socket that the user has left blocking, with a receive timeout
  of 100 ms and no send timeout; the same context after \<open>close\<close>; and a table of fd
  contexts in which fd 3 is that socket.
\<close>

definition example_socket :: FdCtx where
  "example_socket =
     \<lparr>is_socket = True, is_closed = False, sys_nonblock = True, user_nonblock = False,
      recv_timeout_ms = 100, send_timeout_ms = - 1\<rparr>"

definition example_closed_socket :: FdCtx where
  "example_closed_socket = example_socket\<lparr>is_closed := True\<rparr>"

definition example_fds :: FdManager where
  "example_fds fd = (if fd = 3 then Some example_socket else None)"

section \<open>Properties of the coroutine primitive\<close>

lemma MainFunc_ends_in_TERM:
  "\<exists>tls' f' p. MainFunc tls cur = Inr (tls', f', p) \<and> m_state f' = TERM_state
      \<and> t_fiber tls' = t_thread_fiber tls"
  by (simp add: MainFunc_def yield_def SetThis_def Let_def)

text \<open>
  Claim C8. For a coroutine whose state is \<open>RUNNING\<close> or \<open>TERM\<close>, \<open>yield\<close> makes the
  thread's main coroutine the current coroutine; a \<open>RUNNING\<close> coroutine becomes
  \<open>READY\<close>, a \<open>TERM\<close> coroutine stays \<open>TERM\<close> and nothing else of the coroutine
  changes. In the remaining state, \<open>READY\<close>, the assertion of \<open>yield\<close> fails.
\<close>

theorem yield_transitions:
  "(m_state f = RUNNING \<longrightarrow>
      (\<exists>p. yield tls f = Inr (tls\<lparr>t_fiber := t_thread_fiber tls\<rparr>, f\<lparr>m_state := READY\<rparr>, p)))
   \<and> (m_state f = TERM_state \<longrightarrow>
      (\<exists>p. yield tls f = Inr (tls\<lparr>t_fiber := t_thread_fiber tls\<rparr>, f, p)))
   \<and> (m_state f \<noteq> RUNNING \<and> m_state f \<noteq> TERM_state \<longrightarrow> yield tls f = Inl Assertion_failed)"
  by (simp add: yield_def SetThis_def Let_def)

theorem yield_transitions_witness:
  "yield \<lparr>t_fiber = Some 7, t_thread_fiber = Some 1\<rparr>
         \<lparr>m_id = 7, m_state = RUNNING, m_cb = Some 3, m_runInScheduler = True\<rparr>
     = Inr (\<lparr>t_fiber = Some 1, t_thread_fiber = Some 1\<rparr>,
            \<lparr>m_id = 7, m_state = READY, m_cb = Some 3, m_runInScheduler = True\<rparr>,
            Scheduler_main_fiber)
   \<and> yield \<lparr>t_fiber = Some 7, t_thread_fiber = Some 1\<rparr>
         \<lparr>m_id = 7, m_state = TERM_state, m_cb = None, m_runInScheduler = False\<rparr>
     = Inr (\<lparr>t_fiber = Some 1, t_thread_fiber = Some 1\<rparr>,
            \<lparr>m_id = 7, m_state = TERM_state, m_cb = None, m_runInScheduler = False\<rparr>,
            Thread_main_fiber)
   \<and> yield \<lparr>t_fiber = Some 7, t_thread_fiber = Some 1\<rparr>
         \<lparr>m_id = 7, m_state = READY, m_cb = Some 3, m_runInScheduler = True\<rparr>
     = Inl Assertion_failed"
  using yield_transitions [of "\<lparr>m_id = 7, m_state = RUNNING, m_cb = Some 3, m_runInScheduler = True\<rparr>"
                              "\<lparr>t_fiber = Some 7, t_thread_fiber = Some 1\<rparr>"]
        yield_transitions [of "\<lparr>m_id = 7, m_state = TERM_state, m_cb = None, m_runInScheduler = False\<rparr>"
                              "\<lparr>t_fiber = Some 7, t_thread_fiber = Some 1\<rparr>"]
        yield_transitions [of "\<lparr>m_id = 7, m_state = READY, m_cb = Some 3, m_runInScheduler = True\<rparr>"
                              "\<lparr>t_fiber = Some 7, t_thread_fiber = Some 1\<rparr>"]
  by (simp add: yield_def)

section \<open>Properties of event registration\<close>

subsection \<open>Bit masks, the table and the slots\<close>

lemma word_or_and_not_cancel: "(x AND e) = 0 \<Longrightarrow> (x OR e) AND NOT e = (x :: 32 word)"
  by (rule bit_eqI) (auto simp: bit_simps bit_eq_iff)

lemma contextResize_length: "length (contextResize ctxs sz) = sz"
  by (auto simp: contextResize_def)

lemma grow_table_nth:
  "0 \<le> fd \<Longrightarrow> nat fd < length (m_fdContexts (grow_table s fd))
     \<Longrightarrow> m_fdContexts (grow_table s fd) ! nat fd = fd_context s fd"
  by (auto simp: grow_table_def fd_context_def contextResize_def nth_append)

lemma grow_table_fields [simp]:
  "m_pendingEventCount (grow_table s fd) = m_pendingEventCount s"
  "m_tasks (grow_table s fd) = m_tasks s"
  "other_scheduled (grow_table s fd) = other_scheduled s"
  by (simp_all add: grow_table_def)

lemma fd_context_grow_table: "fd_context (grow_table s fd') fd = fd_context s fd"
  by (auto simp: grow_table_def fd_context_def contextResize_def nth_append min_def)

lemma getEventContext_Inr:
  "getEventContext ctx event = Inr ec \<Longrightarrow> event = READ \<or> event = WRITE"
  by (auto simp: getEventContext_def split: if_splits)

lemma getEventContext_events [simp]:
  "getEventContext (ctx\<lparr>fc_events := m\<rparr>) event = getEventContext ctx event"
  by (simp add: getEventContext_def)

lemma setEventContext_events [simp]:
  "fc_events (setEventContext c event slot) = fc_events c"
  by (simp add: setEventContext_def)

lemma empty_slot_eq:
  "ec_scheduler ec = None \<Longrightarrow> ec_fiber ec = None \<Longrightarrow> ec_cb ec = None \<Longrightarrow> ec = empty_EventContext"
  by (simp add: empty_EventContext_def)

lemma resetEventContext_empty [simp]: "resetEventContext ec = empty_EventContext"
  by (simp add: resetEventContext_def empty_EventContext_def)

subsection \<open>The outcomes of \<open>addEvent\<close> and \<open>delEvent\<close>\<close>

lemma addEvent_ctl_fails:
  assumes "0 \<le> fd" and "nat fd < length (m_fdContexts (grow_table s fd))"
      and "(fd_events s fd AND event) = 0"
      and "epoll_ctl (if fd_events s fd \<noteq> 0 then EPOLL_CTL_MOD else EPOLL_CTL_ADD) fd
             (EPOLLET OR fd_events s fd OR event) \<noteq> 0"
    shows "addEvent epoll_ctl env s fd event cb = Inr (- 1, grow_table s fd)"
proof -
  have ctx: "m_fdContexts (grow_table s fd) ! nat fd = fd_context s fd"
    using assms(1,2) by (rule grow_table_nth)
  show ?thesis
    using assms ctx by (simp add: addEvent_def fd_events_def)
qed

lemma addEvent_success:
  assumes "addEvent epoll_ctl env s fd event cb = Inr (0, s1)"
  shows "0 \<le> fd \<and> nat fd < length (m_fdContexts (grow_table s fd))
       \<and> (event = READ \<or> event = WRITE)
       \<and> (fd_events s fd AND event) = 0
       \<and> getEventContext (fd_context s fd) event = Inr empty_EventContext
       \<and> s1 = (grow_table s fd)\<lparr>m_fdContexts := (m_fdContexts (grow_table s fd))
                    [nat fd := setEventContext ((fd_context s fd)\<lparr>fc_events := fd_events s fd OR event\<rparr>)
                                  event (registered_slot env cb)],
                 m_pendingEventCount := m_pendingEventCount s + 1\<rparr>"
proof -
  from assms have fd0: "0 \<le> fd" and inb: "nat fd < length (m_fdContexts (grow_table s fd))"
    by (auto simp: addEvent_def Let_def split: if_splits)
  have ctx: "m_fdContexts (grow_table s fd) ! nat fd = fd_context s fd"
    using fd0 inb by (rule grow_table_nth)
  from assms fd0 inb ctx have nodup: "(fd_events s fd AND event) = 0"
    by (auto simp: addEvent_def Let_def fd_events_def split: if_splits)
  from assms fd0 inb ctx nodup obtain ec where ec: "getEventContext (fd_context s fd) event = Inr ec"
    by (cases "getEventContext (fd_context s fd) event")
       (auto simp: addEvent_def Let_def fd_events_def split: if_splits)
  from assms fd0 inb ctx nodup ec have "ec_scheduler ec = None \<and> ec_fiber ec = None \<and> ec_cb ec = None"
    by (auto simp: addEvent_def Let_def fd_events_def split: if_splits)
  then have ece: "ec = empty_EventContext" by (simp add: empty_slot_eq)
  have s1: "s1 = (grow_table s fd)\<lparr>m_fdContexts := (m_fdContexts (grow_table s fd))
                    [nat fd := setEventContext ((fd_context s fd)\<lparr>fc_events := fd_events s fd OR event\<rparr>)
                                  event (registered_slot env cb)],
                 m_pendingEventCount := m_pendingEventCount s + 1\<rparr>"
    using assms fd0 inb ctx nodup ec ece
    by (cases cb)
       (auto simp: addEvent_def Let_def fd_events_def registered_slot_def empty_EventContext_def
             split: if_splits)
  show ?thesis using fd0 inb nodup ec ece s1 getEventContext_Inr [OF ec] by simp
qed

lemma delEvent_success:
  assumes "delEvent epoll_ctl s fd event = Inr (True, s')"
  shows "0 \<le> fd \<and> nat fd < length (m_fdContexts s)
       \<and> (event = READ \<or> event = WRITE)
       \<and> (fd_events s fd AND event) \<noteq> 0
       \<and> s' = s\<lparr>m_pendingEventCount := m_pendingEventCount s - 1,
                 m_fdContexts := (m_fdContexts s)
                    [nat fd := setEventContext ((fd_context s fd)\<lparr>fc_events := fd_events s fd AND NOT event\<rparr>)
                                  event empty_EventContext]\<rparr>"
proof -
  from assms have fd0: "0 \<le> fd" and inb: "nat fd < length (m_fdContexts s)"
    by (auto simp: delEvent_def Let_def split: if_splits)
  then have ctx: "m_fdContexts s ! nat fd = fd_context s fd"
    by (simp add: fd_context_def)
  from assms fd0 inb ctx have reg: "(fd_events s fd AND event) \<noteq> 0"
    by (auto simp: delEvent_def Let_def fd_events_def split: if_splits)
  from assms fd0 inb ctx reg obtain ec where ec: "getEventContext (fd_context s fd) event = Inr ec"
    by (cases "getEventContext (fd_context s fd) event")
       (auto simp: delEvent_def Let_def fd_events_def split: if_splits)
  have s': "s' = s\<lparr>m_pendingEventCount := m_pendingEventCount s - 1,
                 m_fdContexts := (m_fdContexts s)
                    [nat fd := setEventContext ((fd_context s fd)\<lparr>fc_events := fd_events s fd AND NOT event\<rparr>)
                                  event empty_EventContext]\<rparr>"
    using assms fd0 inb ctx reg ec
    by (auto simp: delEvent_def Let_def fd_events_def split: if_splits)
  show ?thesis using fd0 inb reg s' getEventContext_Inr [OF ec] by simp
qed

lemma delEvent_False: "delEvent epoll_ctl s fd event = Inr (False, s') \<Longrightarrow> s' = s"
  by (auto simp: delEvent_def Let_def split: if_splits sum.splits)

text \<open>
  Both operations do return under the conditions one expects: the fd is within the
  table's reach, the event is one direction, the slot is empty as long as the direction
  is not registered, and the kernel accepts the call.
\<close>

lemma addEvent_succeeds:
  assumes "0 \<le> fd" and "nat fd < length (m_fdContexts s) \<or> 2 \<le> fd"
      and "event = READ \<or> event = WRITE"
      and "(fd_events s fd AND event) = 0"
      and "getEventContext (fd_context s fd) event = Inr empty_EventContext"
      and "epoll_ctl (if fd_events s fd \<noteq> 0 then EPOLL_CTL_MOD else EPOLL_CTL_ADD) fd
             (EPOLLET OR fd_events s fd OR event) = 0"
      and "cb \<noteq> None \<or> cur_fiber_state env = RUNNING"
  shows "\<exists>s1. addEvent epoll_ctl env s fd event cb = Inr (0, s1)"
proof -
  have inb: "nat fd < length (m_fdContexts (grow_table s fd))"
    using assms(1,2) by (auto simp: grow_table_def contextResize_length)
  have ctx: "m_fdContexts (grow_table s fd) ! nat fd = fd_context s fd"
    using assms(1) inb by (rule grow_table_nth)
  show ?thesis
  proof (cases cb)
    case None
    with assms(7) have "cur_fiber_state env = RUNNING" by simp
    with None assms(1,4,5,6) inb ctx show ?thesis
      by (simp add: addEvent_def fd_events_def empty_EventContext_def Let_def)
  next
    case (Some c)
    with assms(1,4,5,6) inb ctx show ?thesis
      by (simp add: addEvent_def fd_events_def empty_EventContext_def Let_def)
  qed
qed

lemma delEvent_succeeds:
  assumes "0 \<le> fd" and "nat fd < length (m_fdContexts s)"
      and "event = READ \<or> event = WRITE"
      and "(fd_events s fd AND event) \<noteq> 0"
      and "epoll_ctl (if (fd_events s fd AND NOT event) \<noteq> 0 then EPOLL_CTL_MOD else EPOLL_CTL_DEL) fd
             (EPOLLET OR (fd_events s fd AND NOT event)) = 0"
  shows "\<exists>s'. delEvent epoll_ctl s fd event = Inr (True, s')"
proof -
  have ctx: "m_fdContexts s ! nat fd = fd_context s fd"
    using assms(1,2) by (simp add: fd_context_def)
  from assms(3) have "\<exists>ec. getEventContext (fd_context s fd) event = Inr ec"
    by (auto simp: getEventContext_def)
  then obtain ec where "getEventContext (fd_context s fd) event = Inr ec" ..
  with assms(1,2,4,5) ctx show ?thesis
    by (simp add: delEvent_def fd_events_def Let_def)
qed

lemma slot_roundtrip:
  assumes "event = READ \<or> event = WRITE"
      and "getEventContext ctx event = Inr empty_EventContext"
      and "(fc_events ctx AND event) = 0"
  shows "setEventContext
           ((setEventContext (ctx\<lparr>fc_events := fc_events ctx OR event\<rparr>) event slot)
              \<lparr>fc_events := (fc_events ctx OR event) AND NOT event\<rparr>)
           event empty_EventContext = ctx"
  using assms
  by (auto simp: setEventContext_def getEventContext_def word_or_and_not_cancel READ_def WRITE_def
           split: if_splits)

lemma addEvent_delEvent_state:
  assumes addE: "addEvent ectl1 env s fd event cb = Inr (0, s1)"
      and delE: "delEvent ectl2 s1 fd event = Inr (True, s2)"
  shows "s2 = grow_table s fd"
proof -
  let ?g = "grow_table s fd"
  let ?c1 = "setEventContext ((fd_context s fd)\<lparr>fc_events := fd_events s fd OR event\<rparr>)
                                  event (registered_slot env cb)"
  from addEvent_success [OF addE]
  have fd0: "0 \<le> fd" and inb: "nat fd < length (m_fdContexts ?g)"
    and ev: "event = READ \<or> event = WRITE"
    and nodup: "(fd_events s fd AND event) = 0"
    and slot: "getEventContext (fd_context s fd) event = Inr empty_EventContext"
    and s1: "s1 = ?g\<lparr>m_fdContexts := (m_fdContexts ?g)[nat fd := ?c1],
                 m_pendingEventCount := m_pendingEventCount s + 1\<rparr>"
    by blast+
  have ctx: "m_fdContexts ?g ! nat fd = fd_context s fd"
    using fd0 inb by (rule grow_table_nth)
  have c1: "fd_context s1 fd = ?c1"
    using fd0 inb by (simp add: s1 fd_context_def)
  from delEvent_success [OF delE]
  have s2: "s2 = s1\<lparr>m_pendingEventCount := m_pendingEventCount s1 - 1,
                 m_fdContexts := (m_fdContexts s1)
                    [nat fd := setEventContext ((fd_context s1 fd)\<lparr>fc_events := fd_events s1 fd AND NOT event\<rparr>)
                                  event empty_EventContext]\<rparr>"
    by blast
  have restored: "setEventContext ((fd_context s1 fd)\<lparr>fc_events := fd_events s1 fd AND NOT event\<rparr>)
                                  event empty_EventContext = fd_context s fd"
    using slot_roundtrip [OF ev slot] nodup by (simp add: c1 fd_events_def)
  show ?thesis
    unfolding s2 restored
    using ctx inb by (simp add: s1 list_update_same_conv)
qed

subsection \<open>Counting registered directions\<close>

lemma and_not_and_disjoint: "(a AND b) = 0 \<Longrightarrow> (m AND NOT a) AND b = m AND (b :: 32 word)"
  by (rule bit_eqI) (auto simp: bit_simps bit_eq_iff)

lemma and_not_and_same: "(m AND NOT a) AND a = (0 :: 32 word)"
  by (rule bit_eqI) (auto simp: bit_simps bit_eq_iff)

lemma READ_WRITE_disjoint: "(READ AND WRITE) = 0" "(WRITE AND READ) = 0"
  by (simp_all add: READ_def WRITE_def)

lemma ndirs_clear:
  assumes "event = READ \<or> event = WRITE" and "(m AND event) \<noteq> 0"
  shows "ndirs m = Suc (ndirs (m AND NOT event))"
  using assms
  by (auto simp: ndirs_def and_not_and_same and_not_and_disjoint READ_WRITE_disjoint)

lemma ndirs_set:
  assumes "event = READ \<or> event = WRITE" and "(m AND event) = 0"
  shows "ndirs (m OR event) = Suc (ndirs m)"
proof -
  have "(m OR event) AND NOT event = m" using assms(2) by (rule word_or_and_not_cancel)
  moreover have "((m OR event) AND event) \<noteq> 0"
    using assms(1) by (auto simp: READ_def WRITE_def bit.conj_disj_distrib2)
  ultimately show ?thesis using ndirs_clear [OF assms(1), of "m OR event"] by simp
qed

lemma triggerEvent_Inr:
  assumes "triggerEvent c event = Inr (c', sch, task)"
  shows "(event = READ \<or> event = WRITE) \<and> (fc_events c AND event) \<noteq> 0
       \<and> fc_events c' = fc_events c AND NOT event"
proof -
  from assms have reg: "(fc_events c AND event) \<noteq> 0"
    by (auto simp: triggerEvent_def split: if_splits)
  from assms reg obtain ec where ec: "getEventContext c event = Inr ec"
    by (cases "getEventContext c event") (auto simp: triggerEvent_def Let_def)
  from assms reg ec have "fc_events c' = fc_events c AND NOT event"
    by (auto simp: triggerEvent_def Let_def split: option.splits)
  with reg getEventContext_Inr [OF ec] show ?thesis by simp
qed

lemma schedule_fields [simp]:
  "m_fdContexts (schedule s sch task) = m_fdContexts s"
  "m_pendingEventCount (schedule s sch task) = m_pendingEventCount s"
  by (simp_all add: schedule_def split: sched_ref.splits)

lemma trigger_and_count_Inr:
  assumes "trigger_and_count s i event = Inr t"
  shows "(event = READ \<or> event = WRITE)
       \<and> (fc_events (m_fdContexts s ! i) AND event) \<noteq> 0
       \<and> m_pendingEventCount t = m_pendingEventCount s - 1
       \<and> (\<exists>c'. m_fdContexts t = (m_fdContexts s)[i := c']
              \<and> fc_events c' = fc_events (m_fdContexts s ! i) AND NOT event)"
proof -
  from assms(1) obtain c' sch task where
    tr: "triggerEvent (m_fdContexts s ! i) event = Inr (c', sch, task)"
    and t: "t = (schedule (s\<lparr>m_fdContexts := (m_fdContexts s)[i := c']\<rparr>) sch task)
                 \<lparr>m_pendingEventCount :=
                    m_pendingEventCount (schedule (s\<lparr>m_fdContexts := (m_fdContexts s)[i := c']\<rparr>) sch task) - 1\<rparr>"
    by (auto simp: trigger_and_count_def trigger_at_def split: sum.splits)
  from triggerEvent_Inr [OF tr] show ?thesis
    by (auto simp: t)
qed

lemma counts_cleared_refl: "i < length (m_fdContexts s) \<Longrightarrow> counts_cleared s s i"
  by (auto simp: counts_cleared_def intro: exI [of _ "m_fdContexts s ! i"])

lemma counts_cleared_length: "counts_cleared s t i \<Longrightarrow> i < length (m_fdContexts t)"
  by (auto simp: counts_cleared_def)

lemma counts_cleared_trans:
  assumes "counts_cleared s t i" and "counts_cleared t u i"
  shows "counts_cleared s u i"
proof -
  from assms(1) obtain c1 where i: "i < length (m_fdContexts s)"
    and t: "m_fdContexts t = (m_fdContexts s)[i := c1]"
    and n1: "ndirs (fc_events c1) \<le> ndirs (fc_events (m_fdContexts s ! i))"
    and p1: "m_pendingEventCount t = m_pendingEventCount s
                 - of_nat (ndirs (fc_events (m_fdContexts s ! i)) - ndirs (fc_events c1))"
    by (auto simp: counts_cleared_def)
  from assms(2) obtain c2 where
        u: "m_fdContexts u = (m_fdContexts t)[i := c2]"
    and n2: "ndirs (fc_events c2) \<le> ndirs (fc_events (m_fdContexts t ! i))"
    and p2: "m_pendingEventCount u = m_pendingEventCount t
                 - of_nat (ndirs (fc_events (m_fdContexts t ! i)) - ndirs (fc_events c2))"
    by (auto simp: counts_cleared_def)
  have ti: "m_fdContexts t ! i = c1" using i by (simp add: t)
  have "m_fdContexts u = (m_fdContexts s)[i := c2]" by (simp add: u t)
  moreover have "ndirs (fc_events c2) \<le> ndirs (fc_events (m_fdContexts s ! i))"
    using n1 n2 by (simp add: ti)
  moreover have "m_pendingEventCount u = m_pendingEventCount s
                 - of_nat (ndirs (fc_events (m_fdContexts s ! i)) - ndirs (fc_events c2))"
    using n1 n2 by (simp add: p2 p1 ti)
  ultimately show ?thesis using i by (auto simp: counts_cleared_def)
qed

lemma counts_cleared_trigger:
  assumes "trigger_and_count s i event = Inr t" and "i < length (m_fdContexts s)"
  shows "counts_cleared s t i"
proof -
  from trigger_and_count_Inr [OF assms(1)] obtain c' where
        ev: "event = READ \<or> event = WRITE"
    and reg: "(fc_events (m_fdContexts s ! i) AND event) \<noteq> 0"
    and p: "m_pendingEventCount t = m_pendingEventCount s - 1"
    and l: "m_fdContexts t = (m_fdContexts s)[i := c']"
    and e: "fc_events c' = fc_events (m_fdContexts s ! i) AND NOT event"
    by blast
  from ndirs_clear [OF ev reg] have "ndirs (fc_events (m_fdContexts s ! i)) = Suc (ndirs (fc_events c'))"
    by (simp add: e)
  with assms(2) p l show ?thesis
    by (auto simp: counts_cleared_def)
qed

lemma counts_cleared_fire:
  assumes "fire_if b s i event = Inr t" and "i < length (m_fdContexts s)"
  shows "counts_cleared s t i"
  using assms by (cases b) (auto simp: fire_if_def counts_cleared_refl counts_cleared_trigger)

lemma counts_cleared_fire2:
  assumes "fire_if b s i e1 = Inr s1"
      and "fire_if b' s1 i e2 = Inr t"
      and "i < length (m_fdContexts s)"
  shows "counts_cleared s t i"
proof -
  have 1: "counts_cleared s s1 i" using assms(1,3) by (rule counts_cleared_fire)
  then have "i < length (m_fdContexts s1)" by (rule counts_cleared_length)
  with assms(2) have "counts_cleared s1 t i" by (rule counts_cleared_fire)
  with 1 show ?thesis by (rule counts_cleared_trans)
qed

lemma total_update:
  assumes "i < length xs" and "f c' \<le> f (xs ! i)"
  shows "sum_list (map f (xs[i := c'])) + (f (xs ! i) - f c') = (sum_list (map f xs) :: nat)"
proof -
  have "f (xs ! i) \<le> sum_list (map f xs)"
    using assms(1) by (simp add: member_le_sum_list)
  moreover have "sum_list (map f (xs[i := c'])) = sum_list (map f xs) + f c' - f (xs ! i)"
    using assms(1) by (simp add: map_update sum_list_update)
  ultimately show ?thesis using assms(2) by simp
qed

lemma counts_cleared_fd:
  assumes "counts_cleared s t (nat fd)" and "0 \<le> fd"
  shows "m_pendingEventCount t = m_pendingEventCount s - of_nat (cleared s t fd)
       \<and> total_registered t + cleared s t fd = total_registered s"
proof -
  from assms(1) obtain c' where i: "nat fd < length (m_fdContexts s)"
    and t: "m_fdContexts t = (m_fdContexts s)[nat fd := c']"
    and n: "ndirs (fc_events c') \<le> ndirs (fc_events (m_fdContexts s ! nat fd))"
    and p: "m_pendingEventCount t = m_pendingEventCount s
                 - of_nat (ndirs (fc_events (m_fdContexts s ! nat fd)) - ndirs (fc_events c'))"
    by (auto simp: counts_cleared_def)
  have c: "cleared s t fd = ndirs (fc_events (m_fdContexts s ! nat fd)) - ndirs (fc_events c')"
    using i assms(2) by (simp add: cleared_def fd_events_def fd_context_def t)
  from total_update [of "nat fd" "m_fdContexts s" "\<lambda>c. ndirs (fc_events c)" c', OF i n]
  show ?thesis by (simp add: c p total_registered_def t)
qed

lemma cleared_same [simp]: "cleared s s fd = 0"
  by (simp add: cleared_def)

lemma cancelEvent_Inr:
  assumes "cancelEvent epoll_ctl s fd event = Inr (r, s')"
  shows "s' = s \<or> (0 \<le> fd \<and> nat fd < length (m_fdContexts s)
                   \<and> trigger_and_count s (nat fd) event = Inr s')"
  using assms
  by (auto simp: cancelEvent_def trigger_and_count_def Let_def split: if_splits sum.splits)

lemma cancelAll_Inr:
  assumes "cancelAll epoll_ctl s fd = Inr (r, s')"
  shows "s' = s \<or> (0 \<le> fd \<and> nat fd < length (m_fdContexts s)
       \<and> (\<exists>s1 b b'. fire_if b s (nat fd) READ = Inr s1 \<and> fire_if b' s1 (nat fd) WRITE = Inr s'))"
  using assms
  by (auto simp: cancelAll_def Let_def split: if_splits sum.splits)

lemma dispatch_event_Inr:
  assumes "dispatch_event epoll_ctl s \<lparr>ev_events = e, ev_data = Data_ptr i\<rparr> = Inr s'"
  shows "s' = s \<or> (i < length (m_fdContexts s)
       \<and> (\<exists>s1 b b'. fire_if b s i READ = Inr s1 \<and> fire_if b' s1 i WRITE = Inr s'))"
  using assms
  by (auto simp: dispatch_event_def Let_def split: if_splits sum.splits)

lemma ndirs_NONE [simp]: "ndirs NONE = 0"
  by (simp add: ndirs_def NONE_def)

lemma total_registered_grow_table: "total_registered (grow_table s fd) = total_registered s"
  by (simp add: total_registered_def grow_table_def contextResize_def new_FdContext_def
      comp_def sum_list_triv)

text \<open>
  The counter is unsigned, and the changes below are stated in its arithmetic. In a state
  where the counter equals the number of registered directions, a decrease by the number
  of cleared directions does not wrap around, and the equality holds again afterwards.
\<close>

lemma pending_count_does_not_wrap:
  assumes "m_pendingEventCount s' = m_pendingEventCount s - of_nat c"
      and "total_registered s' + c = total_registered s"
      and "unat (m_pendingEventCount s) = total_registered s"
  shows "unat (m_pendingEventCount s') = total_registered s'"
    and "unat (m_pendingEventCount s') + c = unat (m_pendingEventCount s)"
proof -
  have lt: "total_registered s < 2 ^ 64"
    using unsigned_less [of "m_pendingEventCount s", where ?'a = nat] assms(3) by simp
  have "m_pendingEventCount s = of_nat (unat (m_pendingEventCount s))"
    by simp
  then have "m_pendingEventCount s = of_nat (total_registered s' + c)"
    using assms(2,3) by simp
  then have "m_pendingEventCount s' = of_nat (total_registered s')"
    using assms(1) by simp
  moreover have "total_registered s' < 2 ^ 64" using lt assms(2) by simp
  ultimately show 1: "unat (m_pendingEventCount s') = total_registered s'"
    by (simp add: unat_of_nat)
  show "unat (m_pendingEventCount s') + c = unat (m_pendingEventCount s)"
    using 1 assms(2,3) by simp
qed

subsection \<open>Cancelling the event of a waiting coroutine\<close>

text \<open>
  What the timer of a hooked operation sets off: once a coroutine has registered itself
  for a direction, \<open>cancelEvent\<close> for that direction hands the coroutine to the
  scheduler and leaves the fd's context and the count of pending events as they were
  before the registration.
\<close>

lemma cancelEvent_schedules_waiter:
  assumes "addEvent ectl1 env s fd event None = Inr (0, s1)"
      and "cur_scheduler env = Some This_scheduler"
      and "ectl2 (if fd_events s fd \<noteq> 0 then EPOLL_CTL_MOD else EPOLL_CTL_DEL) fd
             (EPOLLET OR fd_events s fd) = 0"
  shows "\<exists>s2. cancelEvent ectl2 s1 fd event = Inr (True, s2)
           \<and> m_tasks s2 = m_tasks s @ [\<lparr>task_fiber = Some (cur_fiber env), task_cb = None, task_thread = - 1\<rparr>]
           \<and> m_pendingEventCount s2 = m_pendingEventCount s
           \<and> fd_context s2 fd = fd_context s fd"
proof -
  let ?g = "grow_table s fd"
  let ?c1 = "setEventContext ((fd_context s fd)\<lparr>fc_events := fd_events s fd OR event\<rparr>)
                                  event (registered_slot env None)"
  from addEvent_success [OF assms(1)]
  have fd0: "0 \<le> fd" and inb: "nat fd < length (m_fdContexts ?g)"
    and ev: "event = READ \<or> event = WRITE"
    and nodup: "(fd_events s fd AND event) = 0"
    and slot: "getEventContext (fd_context s fd) event = Inr empty_EventContext"
    and s1: "s1 = ?g\<lparr>m_fdContexts := (m_fdContexts ?g)[nat fd := ?c1],
                 m_pendingEventCount := m_pendingEventCount s + 1\<rparr>"
    by blast+
  have ctx: "m_fdContexts ?g ! nat fd = fd_context s fd"
    using fd0 inb by (rule grow_table_nth)
  have l1: "nat fd < length (m_fdContexts s1)" "\<not> int (length (m_fdContexts s1)) \<le> fd"
    using fd0 inb by (auto simp: s1)
  have c1: "m_fdContexts s1 ! nat fd = ?c1" using inb by (simp add: s1)
  have e1: "fc_events ?c1 = fd_events s fd OR event" by simp
  have reg: "(fc_events ?c1 AND event) \<noteq> 0"
    using ev by (auto simp: READ_def WRITE_def bit.conj_disj_distrib2)
  have left: "(fd_events s fd OR event) AND NOT event = fd_events s fd"
    using nodup by (rule word_or_and_not_cancel)
  have get: "getEventContext ?c1 event = Inr (registered_slot env None)"
    using ev by (auto simp: getEventContext_def setEventContext_def READ_def WRITE_def)
  have get1: "getEventContext (?c1\<lparr>fc_events := fd_events s fd\<rparr>) event = Inr (registered_slot env None)"
    using get by simp
  have restored: "setEventContext (?c1\<lparr>fc_events := fd_events s fd\<rparr>) event empty_EventContext
                    = fd_context s fd"
    using slot_roundtrip [OF ev slot, of "registered_slot env None"] nodup
    by (simp add: fd_events_def left [unfolded fd_events_def])
  have sl: "ec_scheduler (registered_slot env None) = Some This_scheduler"
           "ec_cb (registered_slot env None) = None"
           "ec_fiber (registered_slot env None) = Some (cur_fiber env)"
    using assms(2) by (simp_all add: registered_slot_def)
  have tr: "triggerEvent ?c1 event
      = Inr (fd_context s fd, This_scheduler,
             \<lparr>task_fiber = Some (cur_fiber env), task_cb = None, task_thread = - 1\<rparr>)"
    unfolding triggerEvent_def
    using reg by (simp add: Let_def e1 left get sl restored)
  have "cancelEvent ectl2 s1 fd event
          = Inr (True, (schedule (s1\<lparr>m_fdContexts := (m_fdContexts s1)[nat fd := fd_context s fd]\<rparr>)
                  This_scheduler \<lparr>task_fiber = Some (cur_fiber env), task_cb = None, task_thread = - 1\<rparr>)
                 \<lparr>m_pendingEventCount := m_pendingEventCount s1 - 1\<rparr>)"
    using fd0 l1 reg assms(3) left
    by (simp add: cancelEvent_def c1 trigger_at_def tr)
  then show ?thesis
    using fd0 inb ctx
    by (simp add: schedule_def s1 fd_context_def list_update_same_conv grow_table_def)
qed

subsection \<open>The operations on the example states\<close>

lemmas example_defs = example_iom_def example_caller_def
  kernel_ok_def new_FdContext_def empty_EventContext_def
  READ_def WRITE_def NONE_def EPOLLIN_def EPOLLOUT_def EPOLLERR_def EPOLLHUP_def EPOLLET_def

lemma example_addEvent:
  "addEvent kernel_ok example_caller example_iom 3 WRITE (Some 4) = Inr (0, example_iom_rw)"
  by (simp add: addEvent_def grow_table_def getEventContext_def setEventContext_def
        example_iom_rw_def example_defs)

lemma example_delEvent: "delEvent kernel_ok example_iom_rw 3 WRITE = Inr (True, example_iom)"
  by (simp add: delEvent_def getEventContext_def setEventContext_def resetEventContext_def
        example_iom_rw_def example_defs)

lemma example_cancelEvent:
  "cancelEvent kernel_ok example_iom 3 READ = Inr (True, example_iom_fired [11])"
  by (simp add: cancelEvent_def trigger_at_def triggerEvent_def schedule_def
       getEventContext_def setEventContext_def resetEventContext_def
       example_iom_fired_def example_defs)

lemma example_cancelAll:
  "cancelAll kernel_ok example_iom_rw 3 = Inr (True, example_iom_fired [11, 4])"
  by (simp add: cancelAll_def fire_if_def trigger_and_count_def trigger_at_def triggerEvent_def schedule_def
       getEventContext_def setEventContext_def resetEventContext_def
       example_iom_rw_def example_iom_fired_def example_defs)

lemma example_dispatch_event:
  "dispatch_event kernel_ok example_iom_rw \<lparr>ev_events = EPOLLHUP, ev_data = Data_ptr 3\<rparr>
     = Inr (example_iom_fired [11, 4])"
  by (simp add: dispatch_event_def fire_if_def trigger_and_count_def trigger_at_def triggerEvent_def schedule_def
       getEventContext_def setEventContext_def resetEventContext_def
       example_iom_rw_def example_iom_fired_def example_defs)

lemma example_cleared:
  "cleared example_iom_rw example_iom 3 = 1"
  "cleared example_iom (example_iom_fired [11]) 3 = 1"
  "cleared example_iom_rw (example_iom_fired [11, 4]) 3 = 2"
  by (simp_all add: cleared_def ndirs_def fd_events_def fd_context_def
        example_iom_rw_def example_iom_fired_def example_defs)

subsection \<open>The count of pending events\<close>

text \<open>
  Claim C3. \<open>m_pendingEventCount\<close> is an unsigned 64-bit counter, so its changes are
  stated in that arithmetic. Whenever \<open>addEvent\<close> succeeds, which it does only for a
  direction that was not registered, the counter is one more than before and one more
  direction is registered in the table. Whenever \<open>delEvent\<close>, \<open>cancelEvent\<close>,
  \<open>cancelAll\<close> or the reactor's handling of one ready event (the body of the \<open>for\<close>
  loop of \<open>idle\<close>) returns, the counter has gone down by the number of directions of the
  fd that were registered before and are not registered after, and these are all the
  directions that the table has lost.
\<close>

theorem pending_count_changes:
  "(addEvent ectl env s fd event cb = Inr (0, s1) \<longrightarrow>
      m_pendingEventCount s1 = m_pendingEventCount s + 1
      \<and> total_registered s1 = total_registered s + 1)
   \<and> (delEvent ectl s fd event = Inr (r2, s2) \<longrightarrow>
      m_pendingEventCount s2 = m_pendingEventCount s - of_nat (cleared s s2 fd)
      \<and> total_registered s2 + cleared s s2 fd = total_registered s)
   \<and> (cancelEvent ectl s fd event = Inr (r3, s3) \<longrightarrow>
      m_pendingEventCount s3 = m_pendingEventCount s - of_nat (cleared s s3 fd)
      \<and> total_registered s3 + cleared s s3 fd = total_registered s)
   \<and> (cancelAll ectl s fd = Inr (r4, s4) \<longrightarrow>
      m_pendingEventCount s4 = m_pendingEventCount s - of_nat (cleared s s4 fd)
      \<and> total_registered s4 + cleared s s4 fd = total_registered s)
   \<and> (dispatch_event ectl s \<lparr>ev_events = e, ev_data = Data_ptr i\<rparr> = Inr s5 \<longrightarrow>
      m_pendingEventCount s5 = m_pendingEventCount s - of_nat (cleared s s5 (int i))
      \<and> total_registered s5 + cleared s s5 (int i) = total_registered s)"
proof (intro conjI impI)
  assume a: "addEvent ectl env s fd event cb = Inr (0, s1)"
  let ?g = "grow_table s fd"
  let ?c1 = "setEventContext ((fd_context s fd)\<lparr>fc_events := fd_events s fd OR event\<rparr>)
                                  event (registered_slot env cb)"
  from addEvent_success [OF a]
  have fd0: "0 \<le> fd" and inb: "nat fd < length (m_fdContexts ?g)"
    and ev: "event = READ \<or> event = WRITE"
    and nodup: "(fd_events s fd AND event) = 0"
    and s1: "s1 = ?g\<lparr>m_fdContexts := (m_fdContexts ?g)[nat fd := ?c1],
                 m_pendingEventCount := m_pendingEventCount s + 1\<rparr>"
    by blast+
  show "m_pendingEventCount s1 = m_pendingEventCount s + 1" by (simp add: s1)
  have ctx: "m_fdContexts ?g ! nat fd = fd_context s fd"
    using fd0 inb by (rule grow_table_nth)
  have n: "ndirs (fc_events ?c1) = Suc (ndirs (fc_events (m_fdContexts ?g ! nat fd)))"
    using ndirs_set [OF ev nodup] by (simp add: ctx fd_events_def)
  have "fc_events (m_fdContexts ?g ! nat fd) = fc_events ?c1 AND NOT event"
    using nodup by (simp add: ctx fd_events_def word_or_and_not_cancel)
  have "sum_list (map (\<lambda>c. ndirs (fc_events c)) ((m_fdContexts ?g)[nat fd := ?c1]))
          = sum_list (map (\<lambda>c. ndirs (fc_events c)) (m_fdContexts ?g))
              + ndirs (fc_events ?c1) - ndirs (fc_events (m_fdContexts ?g ! nat fd))"
    using inb by (simp add: map_update sum_list_update)
  then have "total_registered s1 = total_registered ?g + 1"
    unfolding n by (simp add: total_registered_def s1)
  then show "total_registered s1 = total_registered s + 1"
    by (simp add: total_registered_grow_table)
next
  assume d: "delEvent ectl s fd event = Inr (r2, s2)"
  have boths2: "m_pendingEventCount s2 = m_pendingEventCount s - of_nat (cleared s s2 fd)
      \<and> total_registered s2 + cleared s s2 fd = total_registered s"
  proof (cases r2)
    case False
    with d have "s2 = s" by (simp add: delEvent_False)
    then show ?thesis by simp
  next
    case True
    with d have d': "delEvent ectl s fd event = Inr (True, s2)" by simp
    let ?c = "setEventContext ((fd_context s fd)\<lparr>fc_events := fd_events s fd AND NOT event\<rparr>)
                                  event empty_EventContext"
    from delEvent_success [OF d']
    have fd0: "0 \<le> fd" and inb: "nat fd < length (m_fdContexts s)"
      and ev: "event = READ \<or> event = WRITE"
      and reg: "(fd_events s fd AND event) \<noteq> 0"
      and s2: "s2 = s\<lparr>m_pendingEventCount := m_pendingEventCount s - 1,
                 m_fdContexts := (m_fdContexts s)[nat fd := ?c]\<rparr>"
      by blast+
    have ctx: "m_fdContexts s ! nat fd = fd_context s fd"
      using fd0 inb by (simp add: fd_context_def)
    have "ndirs (fc_events (m_fdContexts s ! nat fd)) = Suc (ndirs (fc_events ?c))"
      using ndirs_clear [OF ev reg] by (simp add: ctx fd_events_def)
    then have "counts_cleared s s2 (nat fd)"
      using inb by (auto simp: counts_cleared_def s2)
    then show ?thesis using fd0 by (rule counts_cleared_fd)
  qed
  from boths2 show "m_pendingEventCount s2 = m_pendingEventCount s - of_nat (cleared s s2 fd)"
    by simp
  from boths2 show "total_registered s2 + cleared s s2 fd = total_registered s"
    by simp
next
  assume c: "cancelEvent ectl s fd event = Inr (r3, s3)"
  from cancelEvent_Inr [OF c]
  have boths3: "m_pendingEventCount s3 = m_pendingEventCount s - of_nat (cleared s s3 fd)
      \<and> total_registered s3 + cleared s s3 fd = total_registered s"
  proof
    assume "s3 = s" then show ?thesis by simp
  next
    assume h: "0 \<le> fd \<and> nat fd < length (m_fdContexts s) \<and> trigger_and_count s (nat fd) event = Inr s3"
    then have "counts_cleared s s3 (nat fd)" by (blast intro: counts_cleared_trigger)
    moreover from h have "0 \<le> fd" by simp
    ultimately show ?thesis by (rule counts_cleared_fd)
  qed
  from boths3 show "m_pendingEventCount s3 = m_pendingEventCount s - of_nat (cleared s s3 fd)"
    by simp
  from boths3 show "total_registered s3 + cleared s s3 fd = total_registered s"
    by simp
next
  assume c: "cancelAll ectl s fd = Inr (r4, s4)"
  from cancelAll_Inr [OF c]
  have boths4: "m_pendingEventCount s4 = m_pendingEventCount s - of_nat (cleared s s4 fd)
      \<and> total_registered s4 + cleared s s4 fd = total_registered s"
  proof
    assume "s4 = s" then show ?thesis by simp
  next
    assume h: "0 \<le> fd \<and> nat fd < length (m_fdContexts s)
       \<and> (\<exists>s1 b b'. fire_if b s (nat fd) READ = Inr s1 \<and> fire_if b' s1 (nat fd) WRITE = Inr s4)"
    then have "counts_cleared s s4 (nat fd)" by (blast intro: counts_cleared_fire2)
    moreover from h have "0 \<le> fd" by simp
    ultimately show ?thesis by (rule counts_cleared_fd)
  qed
  from boths4 show "m_pendingEventCount s4 = m_pendingEventCount s - of_nat (cleared s s4 fd)"
    by simp
  from boths4 show "total_registered s4 + cleared s s4 fd = total_registered s"
    by simp
next
  assume c: "dispatch_event ectl s \<lparr>ev_events = e, ev_data = Data_ptr i\<rparr> = Inr s5"
  from dispatch_event_Inr [OF c]
  have boths5: "m_pendingEventCount s5 = m_pendingEventCount s - of_nat (cleared s s5 (int i))
      \<and> total_registered s5 + cleared s s5 (int i) = total_registered s"
  proof
    assume "s5 = s" then show ?thesis by simp
  next
    assume h: "i < length (m_fdContexts s)
       \<and> (\<exists>s1 b b'. fire_if b s i READ = Inr s1 \<and> fire_if b' s1 i WRITE = Inr s5)"
    then have "counts_cleared s s5 i" by (blast intro: counts_cleared_fire2)
    then show ?thesis using counts_cleared_fd [of s s5 "int i"] by simp
  qed
  from boths5 show "m_pendingEventCount s5 = m_pendingEventCount s - of_nat (cleared s s5 (int i))"
    by simp
  from boths5 show "total_registered s5 + cleared s s5 (int i) = total_registered s"
    by simp
qed

theorem pending_count_changes_witness:
  "addEvent kernel_ok example_caller example_iom 3 WRITE (Some 4) = Inr (0, example_iom_rw)
   \<and> m_pendingEventCount example_iom_rw = m_pendingEventCount example_iom + 1
   \<and> total_registered example_iom_rw = total_registered example_iom + 1
   \<and> delEvent kernel_ok example_iom_rw 3 WRITE = Inr (True, example_iom)
   \<and> m_pendingEventCount example_iom = m_pendingEventCount example_iom_rw - 1
   \<and> total_registered example_iom + 1 = total_registered example_iom_rw
   \<and> cancelEvent kernel_ok example_iom 3 READ = Inr (True, example_iom_fired [11])
   \<and> m_pendingEventCount (example_iom_fired [11]) = m_pendingEventCount example_iom - 1
   \<and> total_registered (example_iom_fired [11]) + 1 = total_registered example_iom
   \<and> cancelAll kernel_ok example_iom_rw 3 = Inr (True, example_iom_fired [11, 4])
   \<and> dispatch_event kernel_ok example_iom_rw \<lparr>ev_events = EPOLLHUP, ev_data = Data_ptr 3\<rparr>
        = Inr (example_iom_fired [11, 4])
   \<and> m_pendingEventCount (example_iom_fired [11, 4]) = m_pendingEventCount example_iom_rw - 2
   \<and> total_registered (example_iom_fired [11, 4]) + 2 = total_registered example_iom_rw"
  using pending_count_changes [where ectl = kernel_ok and env = example_caller and s = example_iom
          and fd = 3 and event = WRITE and cb = "Some 4" and ?s1.0 = example_iom_rw]
        pending_count_changes [where ectl = kernel_ok and s = example_iom_rw
          and fd = 3 and event = WRITE and ?r2.0 = True and ?s2.0 = example_iom
          and ?r4.0 = True and ?s4.0 = "example_iom_fired [11, 4]"
          and e = EPOLLHUP and i = 3 and ?s5.0 = "example_iom_fired [11, 4]"]
        pending_count_changes [where ectl = kernel_ok and s = example_iom
          and fd = 3 and event = READ and ?r3.0 = True and ?s3.0 = "example_iom_fired [11]"]
  by (simp add: example_addEvent example_delEvent example_cancelEvent example_cancelAll
        example_dispatch_event example_cleared)

subsection \<open>Registering and removing again\<close>

text \<open>
  Claim C6. Let the direction not be registered for \<open>fd\<close>. When \<open>addEvent\<close> for it
  succeeds and the following \<open>delEvent\<close> succeeds, the context of \<open>fd\<close> is what it
  was, with its mask and both slots, \<open>m_pendingEventCount\<close> is what it was, and no
  task has been handed to any scheduler: the task queue of this scheduler and the tasks
  given to others are unchanged.
\<close>

theorem addEvent_delEvent_roundtrip:
  assumes "(fd_events s fd AND event) = 0"
      and "addEvent ectl1 env s fd event cb = Inr (0, s1)"
      and "delEvent ectl2 s1 fd event = Inr (True, s2)"
  shows "fd_events s2 fd = fd_events s fd
       \<and> fd_context s2 fd = fd_context s fd
       \<and> m_pendingEventCount s2 = m_pendingEventCount s
       \<and> m_tasks s2 = m_tasks s
       \<and> other_scheduled s2 = other_scheduled s"
proof -
  have "s2 = grow_table s fd"
    using assms(2,3) by (rule addEvent_delEvent_state)
  then show ?thesis
    by (simp add: fd_events_def fd_context_grow_table)
qed

theorem addEvent_delEvent_roundtrip_witness:
  "(fd_events example_iom 3 AND WRITE) = 0
   \<and> addEvent kernel_ok example_caller example_iom 3 WRITE (Some 4) = Inr (0, example_iom_rw)
   \<and> delEvent kernel_ok example_iom_rw 3 WRITE = Inr (True, example_iom)
   \<and> fd_events example_iom_rw 3 = READ OR WRITE
   \<and> fd_events example_iom 3 = READ
   \<and> m_pendingEventCount example_iom_rw = 2
   \<and> m_pendingEventCount example_iom = 1"
proof -
  have h: "(fd_events example_iom 3 AND WRITE) = 0"
    by (simp add: fd_events_def fd_context_def example_defs)
  have e: "fd_events example_iom_rw 3 = READ OR WRITE" "fd_events example_iom 3 = READ"
    by (simp_all add: fd_events_def fd_context_def example_iom_rw_def example_defs)
  have p: "m_pendingEventCount example_iom_rw = 2" "m_pendingEventCount example_iom = 1"
    by (simp_all add: example_iom_rw_def example_defs)
  show ?thesis
    using addEvent_delEvent_roundtrip [OF h example_addEvent example_delEvent] h e p
    by (simp add: example_addEvent example_delEvent)
qed

subsection \<open>Registering a direction twice\<close>

text \<open>
  Claim C5. When the direction is already registered for the fd (the mask of the fd and
  the event have a bit in common), \<open>addEvent\<close> fails its assertion, whatever the kernel
  would answer and whoever calls: it returns no state, so nothing is registered a second
  time.
\<close>

theorem addEvent_duplicate_fails:
  assumes "(fd_events s fd AND event) \<noteq> 0"
  shows "addEvent epoll_ctl env s fd event cb = Inl Assertion_failed"
proof -
  from assms have inb: "0 \<le> fd" "nat fd < length (m_fdContexts s)"
    by (auto simp: fd_events_def fd_context_def new_FdContext_def NONE_def split: if_splits)
  then have g: "grow_table s fd = s" by (simp add: grow_table_def)
  from assms inb have "(fc_events (m_fdContexts s ! nat fd) AND event) \<noteq> 0"
    by (simp add: fd_events_def fd_context_def)
  with inb g show ?thesis by (simp add: addEvent_def)
qed

theorem addEvent_duplicate_fails_witness:
  "(fd_events example_iom 3 AND READ) \<noteq> 0
   \<and> addEvent (\<lambda>op fd m. 0) example_caller example_iom 3 READ None = Inl Assertion_failed"
  using addEvent_duplicate_fails [of example_iom 3 READ "\<lambda>op fd m. 0" example_caller None]
  by (simp add: fd_events_def fd_context_def example_iom_def READ_def)

subsection \<open>A failing kernel registration\<close>

text \<open>
  Claim C9. Let \<open>fd\<close> be an fd that the table holds or can grow to hold, and let the
  direction not be registered for it, so that \<open>addEvent\<close> reaches \<open>epoll_ctl\<close>. If that
  call fails, \<open>addEvent\<close> returns \<open>-1\<close>, and the mask of the fd, its two slots and
  \<open>m_pendingEventCount\<close> are as before; when the table already held the fd, the whole
  state is as before.
\<close>

theorem addEvent_epoll_ctl_failure:
  assumes "0 \<le> fd" and "nat fd < length (m_fdContexts s) \<or> 2 \<le> fd"
      and "(fd_events s fd AND event) = 0"
      and "epoll_ctl (if fd_events s fd \<noteq> 0 then EPOLL_CTL_MOD else EPOLL_CTL_ADD) fd
             (EPOLLET OR fd_events s fd OR event) \<noteq> 0"
  shows "\<exists>s'. addEvent epoll_ctl env s fd event cb = Inr (- 1, s')
           \<and> fc_events (fd_context s' fd) = fc_events (fd_context s fd)
           \<and> fc_read (fd_context s' fd) = fc_read (fd_context s fd)
           \<and> fc_write (fd_context s' fd) = fc_write (fd_context s fd)
           \<and> m_pendingEventCount s' = m_pendingEventCount s
           \<and> (nat fd < length (m_fdContexts s) \<longrightarrow> s' = s)"
proof -
  have inb: "nat fd < length (m_fdContexts (grow_table s fd))"
    using assms(1,2) by (auto simp: grow_table_def contextResize_length)
  have r: "addEvent epoll_ctl env s fd event cb = Inr (- 1, grow_table s fd)"
    using assms(1) inb assms(3,4) by (rule addEvent_ctl_fails)
  have same: "nat fd < length (m_fdContexts s) \<longrightarrow> grow_table s fd = s"
    using assms(1) by (simp add: grow_table_def)
  show ?thesis
    using r same by (simp add: fd_context_grow_table)
qed

theorem addEvent_epoll_ctl_failure_witness:
  "addEvent (\<lambda>op fd m. - 1) example_caller example_iom 3 WRITE None = Inr (- 1, example_iom)
   \<and> addEvent (\<lambda>op fd m. - 1) example_caller example_iom 6 WRITE (Some 4)
       = Inr (- 1, example_iom\<lparr>m_fdContexts := m_fdContexts example_iom
                 @ [new_FdContext 4, new_FdContext 5, new_FdContext 6, new_FdContext 7, new_FdContext 8]\<rparr>)"
  using addEvent_epoll_ctl_failure [of 3 example_iom WRITE "\<lambda>op fd m. - 1" example_caller None]
        addEvent_epoll_ctl_failure [of 6 example_iom WRITE "\<lambda>op fd m. - 1" example_caller "Some 4"]
  apply (simp add: fd_events_def fd_context_def example_iom_def READ_def WRITE_def new_FdContext_def NONE_def)
  apply (simp add: addEvent_def grow_table_def contextResize_def READ_def WRITE_def new_FdContext_def NONE_def upt_rec)
  done

section \<open>Properties of the idle coroutine\<close>

lemma clamp_timeout_0: "clamp_timeout 0 = 0"
  by (simp add: clamp_timeout_def MAX_TIMEOUT_def word_sless_alt)

text \<open>
  Whatever the kernel answers and whatever \<open>next_timeout\<close> holds, every call of
  \<open>epoll_wait\<close> in the inner loop asks for at most 256 events and passes the timeout
  5000.
\<close>

lemma epoll_wait_loop_calls:
  "\<exists>n. calls (epoll_wait_loop w rs)
        = calls w @ replicate n \<lparr>maxevents = 256, timeout = 5000\<rparr>"
proof (induction rs arbitrary: w)
  case Nil
  show ?case by (simp add: exI [of _ 0])
next
  case (Cons r rs)
  let ?c = "\<lparr>maxevents = 256, timeout = 5000\<rparr> :: epoll_wait_call"
  let ?w1 = "w\<lparr>next_timeout := clamp_timeout (next_timeout w),
                 calls := calls w @ [?c],
                 events := wait_events r @ drop (length (wait_events r)) (events w)\<rparr>"
  from Cons.IH [of ?w1] obtain n where
    n: "calls (epoll_wait_loop ?w1 rs) = (calls w @ [?c]) @ replicate n ?c" by auto
  have c: "\<lparr>maxevents = uint MAX_EVNETS, timeout = sint MAX_TIMEOUT\<rparr> = ?c"
    by (simp add: MAX_EVNETS_def MAX_TIMEOUT_def)
  show ?case
  proof (cases "wait_rt r < 0 \<and> wait_errno r \<noteq> EINTR")
    case True
    then show ?thesis
      by (auto simp: Let_def c intro: exI [of _ 1])
  next
    case False
    then have "epoll_wait_loop w (r # rs) = epoll_wait_loop ?w1 rs"
      by (auto simp: Let_def c)
    with n show ?thesis
      by (auto simp: replicate_app_Cons_same intro: exI [of _ "Suc n"])
  qed
qed

text \<open>
  Claim C1, evaluated on the code. The multiplexer is not stopping and its next timer is
  due in 100 ms, so the claim asks for the timeout \<open>min(100, 5000) = 100\<close>. The first
  call of \<open>epoll_wait\<close> passes 5000. It returns one ready event, and the pass does not go
  on to dispatch it: the thread waits again, with 5000. When the second call fails with
  \<open>EBADF\<close> the inner loop is left, and the pass reaches its yield with the multiplexer
  unchanged: fd 3 is still registered for \<open>READ\<close>, the ready event was not dispatched.
\<close>

theorem idle_wait_ignores_next_timer:
  "getNextTimer 0 example_timer_iom = 100
   \<and> min (getNextTimer 0 example_timer_iom) 5000 = 100
   \<and> idle_pass kernel_ok no_expired example_timer_iom (replicate 256 zero_epoll_event)
        [\<lparr>wait_rt = 1, wait_errno = 0, wait_events = [example_ready]\<rparr>]
      = Inr (Idle_waiting \<lparr>next_timeout = 0, events = example_ready # replicate 255 zero_epoll_event,
                            calls = [\<lparr>maxevents = 256, timeout = 5000\<rparr>], left_loop = False\<rparr>)
   \<and> idle_pass kernel_ok no_expired example_timer_iom (replicate 256 zero_epoll_event)
        [\<lparr>wait_rt = 1, wait_errno = 0, wait_events = [example_ready]\<rparr>,
         \<lparr>wait_rt = - 1, wait_errno = 9, wait_events = []\<rparr>]
      = Inr (Idle_yield example_timer_iom
               \<lparr>next_timeout = 0, events = example_ready # replicate 255 zero_epoll_event,
                 calls = [\<lparr>maxevents = 256, timeout = 5000\<rparr>, \<lparr>maxevents = 256, timeout = 5000\<rparr>],
                 left_loop = True\<rparr>)"
  by (simp add: getNextTimer_def idle_pass_def stopping_def Scheduler_stopping_def no_expired_def
        example_timer_iom_def example_iom_def example_timer_def clamp_timeout_0
        MAX_EVNETS_def MAX_TIMEOUT_def EINTR_def)

text \<open>
  \<open>stopping(timeout)\<close> does consult the timers: at any time after the clock's origin it
  answers true exactly when no event is pending, no timer is pending and the base
  scheduler would stop.
\<close>

lemma stopping_timeout_checks_timers:
  assumes "now \<noteq> 0"
  shows "snd (stopping_timeout now s)
         = (m_pendingEventCount s = 0 \<and> \<not> hasTimer s \<and> Scheduler_stopping s)"
proof (cases "m_timers s")
  case Nil
  then show ?thesis by (simp add: stopping_timeout_def getNextTimer_def hasTimer_def)
next
  case (Cons t ts)
  have "getNextTimer now s \<noteq> - 1"
  proof (cases "m_next t \<le> now")
    case True
    then show ?thesis using Cons by (simp add: getNextTimer_def)
  next
    case False
    then have lt: "unat now < unat (m_next t)" by (simp add: word_le_nat_alt)
    have "m_next t - now \<noteq> - 1"
    proof
      assume "m_next t - now = - 1"
      then have "m_next t = now - 1" by (simp add: algebra_simps)
      then have "unat (m_next t) = unat now - 1" using assms by (simp add: unat_minus_one)
      with lt show False by simp
    qed
    then show ?thesis using Cons False by (simp add: getNextTimer_def)
  qed
  then show ?thesis using Cons by (simp add: stopping_timeout_def hasTimer_def)
qed

text \<open>
  Claim C2, evaluated on the code. The multiplexer has no pending event and its base
  scheduler would stop, but a timer is pending. \<open>stopping(timeout)\<close> answers false. The
  check that \<open>idle\<close> makes is \<open>stopping()\<close>, which answers true, and the reactor loop
  ends with the timer still pending, whatever the kernel and the timer set would do.
\<close>

theorem idle_stops_with_pending_timer:
  "hasTimer example_stopping_iom
   \<and> getNextTimer 0 example_stopping_iom = 100
   \<and> \<not> snd (stopping_timeout 0 example_stopping_iom)
   \<and> stopping example_stopping_iom
   \<and> idle_pass epoll_ctl listExpiredCb example_stopping_iom buffer answers = Inr Idle_break"
  by (simp add: hasTimer_def getNextTimer_def stopping_def Scheduler_stopping_def stopping_timeout_def
        idle_pass_def example_stopping_iom_def example_timer_def)

section \<open>Properties of the syscall hooks\<close>

subsection \<open>Timeouts\<close>

lemma call_until_not_EINTR_blocked:
  "call_until_not_EINTR (blocked_attempt k @ rest) n
     = Some (\<lparr>io_n = - 1, io_errno = EAGAIN\<rparr>, rest, n + k + 1)"
  by (induction k arbitrary: n) (simp_all add: blocked_attempt_def EINTR_def EAGAIN_def)

text \<open>
  The timer's function marks a live witness that is not yet cancelled with \<open>ETIMEDOUT\<close>
  and cancels the event.
\<close>

lemma timeout_callback_marks:
  "timeout_callback (Some \<lparr>cancelled = 0\<rparr>) = (Some \<lparr>cancelled = ETIMEDOUT\<rparr>, True)"
  by (simp add: timeout_callback_def)

lemma do_io_retry_timeout:
  assumes "to \<noteq> - 1" and "cancelled tinfo = 0"
      and "length ks = length before"
      and "list_all (\<lambda>s. add_rt s = 0 \<and> \<not> timer_fired s) before"
      and "add_rt s = 0" and "timer_fired s"
  shows "do_io_retry to tinfo (before @ s # later)
           (concat (map blocked_attempt ks) @ blocked_attempt k @ rest) n
         = Some \<lparr>io_return = - 1, errno = ETIMEDOUT, calls_made = n + sum_list ks + length ks + k + 1\<rparr>"
  using assms
proof (induction ks arbitrary: before n)
  case Nil
  then show ?case
    by (simp add: call_until_not_EINTR_blocked timeout_callback_def ETIMEDOUT_def)
next
  case (Cons j ks)
  then obtain b bs where b: "before = b # bs" by (cases before) auto
  with Cons.prems have bs: "length ks = length bs" "list_all (\<lambda>s. add_rt s = 0 \<and> \<not> timer_fired s) bs"
    and b0: "add_rt b = 0" "\<not> timer_fired b" by auto
  have "do_io_retry to tinfo (before @ s # later)
           (concat (map blocked_attempt (j # ks)) @ blocked_attempt k @ rest) n
        = do_io_retry to tinfo (bs @ s # later)
           (concat (map blocked_attempt ks) @ blocked_attempt k @ rest) (n + j + 1)"
    using b b0 Cons.prems(2)
    by (subst do_io_retry.simps) (simp add: call_until_not_EINTR_blocked)
  also have "\<dots> = Some \<lparr>io_return = - 1, errno = ETIMEDOUT,
                         calls_made = (n + j + 1) + sum_list ks + length ks + k + 1\<rparr>"
    using Cons.prems(1,2) bs Cons.prems(5,6) by (rule Cons.IH)
  finally show ?case by simp
qed

text \<open>
  Claim C4. Hooking is enabled, the fd is an open socket that the user has left
  blocking, and the timeout of the direction is finite. The operation finds the fd not
  ready any number of times: each time it adds the event and yields, and is woken by
  readiness (\<open>before\<close>, one suspension for each attempt in \<open>ks\<close>). Then, in the
  suspension \<open>s\<close>, the timer's function runs before the coroutine continues. Whatever
  would follow, the operation returns \<open>-1\<close> with \<open>errno = ETIMEDOUT\<close>, and it has not
  called the original function again after the timer fired.
\<close>

theorem do_io_timeout:
  assumes "hook_enable" and "\<not> isClose c" and "isSocket c" and "\<not> getUserNonblock c"
      and "getTimeout c timeout_so \<noteq> - 1"
      and "length ks = length before"
      and "list_all (\<lambda>s. add_rt s = 0 \<and> \<not> timer_fired s) before"
      and "add_rt s = 0" and "timer_fired s"
  shows "do_io hook_enable (Some c) timeout_so (before @ s # later)
           (concat (map blocked_attempt ks) @ blocked_attempt k @ rest)
         = Some \<lparr>io_return = - 1, errno = ETIMEDOUT, calls_made = sum_list ks + length ks + k + 1\<rparr>"
proof -
  have "do_io_retry (getTimeout c timeout_so) \<lparr>cancelled = 0\<rparr> (before @ s # later)
           (concat (map blocked_attempt ks) @ blocked_attempt k @ rest) 0
         = Some \<lparr>io_return = - 1, errno = ETIMEDOUT, calls_made = 0 + sum_list ks + length ks + k + 1\<rparr>"
    using assms(5) _ assms(6-9) by (rule do_io_retry_timeout) simp
  with assms(1-4) show ?thesis by (simp add: do_io_def)
qed

theorem do_io_timeout_witness:
  "do_io True (Some example_socket) SO_RCVTIMEO
     [\<lparr>add_rt = 0, add_errno = 0, timer_fired = False\<rparr>, \<lparr>add_rt = 0, add_errno = 0, timer_fired = True\<rparr>,
      \<lparr>add_rt = 0, add_errno = 0, timer_fired = False\<rparr>]
     [\<lparr>io_n = - 1, io_errno = EINTR\<rparr>, \<lparr>io_n = - 1, io_errno = EAGAIN\<rparr>,
      \<lparr>io_n = - 1, io_errno = EAGAIN\<rparr>, \<lparr>io_n = 5, io_errno = 0\<rparr>]
   = Some \<lparr>io_return = - 1, errno = ETIMEDOUT, calls_made = 3\<rparr>"
  using do_io_timeout [of True example_socket SO_RCVTIMEO "[1]"
          "[\<lparr>add_rt = 0, add_errno = 0, timer_fired = False\<rparr>]"
          "\<lparr>add_rt = 0, add_errno = 0, timer_fired = True\<rparr>"
          "[\<lparr>add_rt = 0, add_errno = 0, timer_fired = False\<rparr>]" 0 "[\<lparr>io_n = 5, io_errno = 0\<rparr>]"]
  by (simp add: blocked_attempt_def example_socket_def isClose_def isSocket_def getUserNonblock_def
        getTimeout_def SO_RCVTIMEO_def)

subsection \<open>A closed fd\<close>

text \<open>
  Claim C10. With hooking enabled and the fd's context marked closed, \<open>do_io\<close> returns
  \<open>-1\<close> with \<open>errno = EBADF\<close> and has made no call of the original function, whatever
  the function and the multiplexer would have answered.
\<close>

theorem do_io_closed_fd:
  assumes "hook_enable" and "isClose c"
  shows "do_io hook_enable (Some c) timeout_so susps answers
         = Some \<lparr>io_return = - 1, errno = EBADF, calls_made = 0\<rparr>"
  using assms by (simp add: do_io_def)

theorem do_io_closed_fd_witness:
  "do_io True (Some example_closed_socket) SO_RCVTIMEO [] [\<lparr>io_n = 5, io_errno = 0\<rparr>]
   = Some \<lparr>io_return = - 1, errno = EBADF, calls_made = 0\<rparr>"
  using do_io_closed_fd [of True example_closed_socket SO_RCVTIMEO "[]" "[\<lparr>io_n = 5, io_errno = 0\<rparr>]"]
  by (simp add: example_closed_socket_def example_socket_def isClose_def)

subsection \<open>The non-blocking flag seen through \<open>fcntl\<close>\<close>

lemma and_exp_bit: "bit x n \<Longrightarrow> x AND 2 ^ n = (2 ^ n :: 32 word)"
  by (rule bit_eqI) (auto simp: bit_simps)

lemma O_NONBLOCK_bit:
  assumes "(x AND O_NONBLOCK) \<noteq> 0"
  shows "x AND O_NONBLOCK = O_NONBLOCK"
proof -
  have o: "O_NONBLOCK = 2 ^ 11" by (simp add: O_NONBLOCK_def)
  from assms have "x AND 2 ^ 11 \<noteq> 0" unfolding o .
  then have "bit x 11" unfolding and_exp_eq_0_iff_not_bit by blast
  then have "x AND 2 ^ 11 = 2 ^ 11" by (rule and_exp_bit)
  then show ?thesis unfolding o .
qed

lemma or_and_same: "(k OR m) AND m = (m :: 32 word)"
  by (rule bit_eqI) (auto simp: bit_simps)

text \<open>
  Claim C7. For an fd whose context is an open socket, \<open>fcntl(fd, F_SETFL, flags)\<close>
  followed by \<open>fcntl(fd, F_GETFL)\<close> returns a value whose \<open>O_NONBLOCK\<close> bit is the
  \<open>O_NONBLOCK\<close> bit of \<open>flags\<close>, whatever the original \<open>fcntl\<close> returns in either
  call, and so whatever flag the kernel holds.
\<close>

theorem fcntl_GETFL_after_SETFL:
  assumes "mgr fd = Some ctx" and "isSocket ctx" and "\<not> isClose ctx"
  shows "fst (fcntl kernel2 (snd (fcntl kernel1 mgr fd (F_SETFL flags))) fd F_GETFL) AND O_NONBLOCK
         = flags AND O_NONBLOCK"
proof -
  let ?ctx' = "setUserNonblock ctx ((flags AND O_NONBLOCK) \<noteq> 0)"
  from assms have m1: "snd (fcntl kernel1 mgr fd (F_SETFL flags)) = mgr(fd := Some ?ctx')"
    by (simp add: fcntl_def Let_def)
  have c: "isSocket ?ctx'" "\<not> isClose ?ctx'" "getUserNonblock ?ctx' = ((flags AND O_NONBLOCK) \<noteq> 0)"
    using assms(2,3) by (simp_all add: isSocket_def isClose_def getUserNonblock_def setUserNonblock_def)
  from c have r2: "fst (fcntl kernel2 (mgr(fd := Some ?ctx')) fd F_GETFL)
                     = (if (flags AND O_NONBLOCK) \<noteq> 0 then kernel2 fd F_GETFL OR O_NONBLOCK
                        else kernel2 fd F_GETFL AND NOT O_NONBLOCK)"
    by (simp add: fcntl_def Let_def)
  show ?thesis
  proof (cases "(flags AND O_NONBLOCK) \<noteq> 0")
    case True
    show ?thesis unfolding m1 r2
      using True O_NONBLOCK_bit [OF True] by (simp add: or_and_same)
  next
    case False
    show ?thesis unfolding m1 r2
      using False by (simp add: and_not_and_same)
  qed
qed

theorem fcntl_GETFL_after_SETFL_witness:
  "fst (fcntl (\<lambda>fd cmd. 0x802) (snd (fcntl (\<lambda>fd cmd. 0) example_fds 3 (F_SETFL 0x2))) 3 F_GETFL) = 0x2
   \<and> fst (fcntl (\<lambda>fd cmd. 0x2) (snd (fcntl (\<lambda>fd cmd. 0) example_fds 3 (F_SETFL 0x802))) 3 F_GETFL) = 0x802"
  using fcntl_GETFL_after_SETFL [of example_fds 3 example_socket "\<lambda>fd cmd. 0x802" "\<lambda>fd cmd. 0" "0x2"]
        fcntl_GETFL_after_SETFL [of example_fds 3 example_socket "\<lambda>fd cmd. 0x2" "\<lambda>fd cmd. 0" "0x802"]
  by (simp add: fcntl_def example_fds_def example_socket_def isSocket_def isClose_def
        getUserNonblock_def getSysNonblock_def setUserNonblock_def O_NONBLOCK_def)

end
